theory Spec2Isabelle
  imports Complex_Main "HOL-Library.AList"
begin

section \<open>Python values, strings and lists\<close>

text \<open>
  The retrieval core is Python. Scores are Python floats and are modelled as \<open>real\<close>: the
  properties verified here are about order, sums and thresholds, not about rounding.
  A Python \<open>str\<close> is modelled as \<open>string\<close>, a \<open>char\<close> standing for the code point of
  its number: the model covers text whose code points are below 256 (Latin-1, which
  holds the Spanish alphabet), and the character classes below are those of Python on
  these code points.
  An exception is a value of \<open>py_error\<close>; a function that may raise returns
  \<open>py_error + 'a\<close>.
\<close>

datatype py_error = ZeroDivisionError | IndexError | ValueError | KeyError

text \<open>Metadata values: \<open>None\<close>, a string or an integer.\<close>

datatype pyval = PNone | PStr string | PInt int

type_synonym metadata = "(string \<times> pyval) list"

text \<open>\<open>d.get(key)\<close> on a metadata dict: \<open>None\<close> when the key is missing.\<close>

definition meta_get :: "metadata \<Rightarrow> string \<Rightarrow> pyval" where
  "meta_get m key = (case map_of m key of None \<Rightarrow> PNone | Some v \<Rightarrow> v)"

text \<open>\<open>xs[:n]\<close> for a Python int \<open>n\<close>: a negative bound counts from the end.\<close>

definition py_slice_to :: "int \<Rightarrow> 'a list \<Rightarrow> 'a list" where
  "py_slice_to n xs = (if 0 \<le> n then take (nat n) xs else take (nat (int (length xs) + n)) xs)"

text \<open>
  \<open>list.sort(key=f, reverse=True)\<close> and \<open>sorted(..., key=f, reverse=True)\<close>: Python's
  sort is stable also when reversed, so elements with equal keys keep their input order.
  That is the stable insertion sort on the negated key.
\<close>

definition sort_desc :: "('a \<Rightarrow> real) \<Rightarrow> 'a list \<Rightarrow> 'a list" where
  "sort_desc f xs = sort_key (\<lambda>x. - f x) xs"

text \<open>
  \<open>str.lower()\<close>, \<open>str.split()\<close> and the substring test \<open>t in s\<close>. The capitals below
  code point 256 are \<open>A\<close> to \<open>Z\<close>, \<open>U+00C0\<close> to \<open>U+00D6\<close> and \<open>U+00D8\<close> to \<open>U+00DE\<close>; the
  whitespace characters are those of \<open>str.isspace\<close>.
\<close>

definition lower_char :: "char \<Rightarrow> char" where
  "lower_char c =
     (case map_of
             (zip (''ABCDEFGHIJKLMNOPQRSTUVWXYZ'' @
                   [CHR 0xC0, CHR 0xC1, CHR 0xC2, CHR 0xC3, CHR 0xC4,
                    CHR 0xC5, CHR 0xC6, CHR 0xC7, CHR 0xC8, CHR 0xC9,
                    CHR 0xCA, CHR 0xCB, CHR 0xCC, CHR 0xCD, CHR 0xCE,
                    CHR 0xCF, CHR 0xD0, CHR 0xD1, CHR 0xD2, CHR 0xD3,
                    CHR 0xD4, CHR 0xD5, CHR 0xD6, CHR 0xD8, CHR 0xD9,
                    CHR 0xDA, CHR 0xDB, CHR 0xDC, CHR 0xDD, CHR 0xDE])
                  (''abcdefghijklmnopqrstuvwxyz'' @
                   [CHR 0xE0, CHR 0xE1, CHR 0xE2, CHR 0xE3, CHR 0xE4,
                    CHR 0xE5, CHR 0xE6, CHR 0xE7, CHR 0xE8, CHR 0xE9,
                    CHR 0xEA, CHR 0xEB, CHR 0xEC, CHR 0xED, CHR 0xEE,
                    CHR 0xEF, CHR 0xF0, CHR 0xF1, CHR 0xF2, CHR 0xF3,
                    CHR 0xF4, CHR 0xF5, CHR 0xF6, CHR 0xF8, CHR 0xF9,
                    CHR 0xFA, CHR 0xFB, CHR 0xFC, CHR 0xFD, CHR 0xFE])) c of
        None \<Rightarrow> c | Some l \<Rightarrow> l)"

definition py_lower :: "string \<Rightarrow> string" where
  "py_lower s = map lower_char s"

definition is_space :: "char \<Rightarrow> bool" where
  "is_space c =
     (c \<in> set [CHR '' '', CHR 0x09, CHR 0x0A, CHR 0x0B, CHR 0x0C, CHR 0x0D,
                CHR 0x1C, CHR 0x1D, CHR 0x1E, CHR 0x1F, CHR 0x85, CHR 0xA0])"

fun split_acc :: "string \<Rightarrow> string \<Rightarrow> string list" where
  "split_acc w [] = (if w = [] then [] else [rev w])"
| "split_acc w (c # cs) =
     (if is_space c then (if w = [] then split_acc [] cs else rev w # split_acc [] cs)
      else split_acc (c # w) cs)"

definition py_split :: "string \<Rightarrow> string list" where
  "py_split s = split_acc [] s"

fun starts_with :: "'a list \<Rightarrow> 'a list \<Rightarrow> bool" where
  "starts_with [] ys = True"
| "starts_with (x # xs) [] = False"
| "starts_with (x # xs) (y # ys) = (x = y \<and> starts_with xs ys)"

fun py_in :: "'a list \<Rightarrow> 'a list \<Rightarrow> bool" where
  "py_in t [] = (t = [])"
| "py_in t (c # cs) = (starts_with t (c # cs) \<or> py_in t cs)"

text \<open>\<open>str(i)\<close> for a non-negative index.\<close>

definition digit_char :: "nat \<Rightarrow> char" where
  "digit_char d = ''0123456789'' ! d"

fun str_nat :: "nat \<Rightarrow> string" where
  "str_nat n = (if n < 10 then [digit_char n] else str_nat (n div 10) @ [digit_char (n mod 10)])"

text \<open>Running a list of fallible computations: the first exception ends the loop.\<close>

fun sequence_sum :: "('e + 'a) list \<Rightarrow> 'e + 'a list" where
  "sequence_sum [] = Inr []"
| "sequence_sum (x # xs) =
     (case x of Inl e \<Rightarrow> Inl e
      | Inr v \<Rightarrow> (case sequence_sum xs of Inl e \<Rightarrow> Inl e | Inr vs \<Rightarrow> Inr (v # vs)))"

text \<open>
  Rank fusion keeps two dicts with the same keys, the summed score of a chunk id and the
  first result seen with it:
  \<^verbatim>\<open>
  if chunk_id in fused_scores:
      fused_scores[chunk_id] += score
  else:
      fused_scores[chunk_id] = score
      all_results[chunk_id] = result
  \<close>
  A dict is an association list in insertion order; \<open>d[k] = v\<close> is \<open>AList.update\<close>.
\<close>

type_synonym 'r fusion_state = "(pyval \<times> real) list \<times> (pyval \<times> 'r) list"

definition accumulate :: "pyval \<Rightarrow> real \<Rightarrow> 'r \<Rightarrow> 'r fusion_state \<Rightarrow> 'r fusion_state" where
  "accumulate cid s result st =
     (case map_of (fst st) cid of
        Some old \<Rightarrow> (AList.update cid (old + s) (fst st), snd st)
      | None \<Rightarrow> (AList.update cid s (fst st), AList.update cid result (snd st)))"

text \<open>\<open>d[k]\<close> on a dict: \<open>KeyError\<close> when the key is missing.\<close>

definition dict_get :: "('k \<times> 'v) list \<Rightarrow> 'k \<Rightarrow> py_error + 'v" where
  "dict_get d k = (case map_of d k of None \<Rightarrow> Inl KeyError | Some v \<Rightarrow> Inr v)"


text \<open>
  The effect of a scan on the two dicts, for the items (id, contribution, result) it
  visits in order, and the total contribution of an id.
\<close>

definition scan_items :: "(pyval \<times> real \<times> 'r) list \<Rightarrow> 'r fusion_state \<Rightarrow> 'r fusion_state" where
  "scan_items items st = fold (\<lambda>(cid, s, result). accumulate cid s result) items st"

definition contribution :: "pyval \<Rightarrow> (pyval \<times> real \<times> 'r) list \<Rightarrow> real" where
  "contribution cid items = sum_list (map (\<lambda>(c, s, result). if c = cid then s else 0) items)"

section \<open>The reranker (\<open>retrieval/reranker.py\<close>)\<close>

text \<open>
  A candidate document is a dict with a mandatory \<open>content\<close> and optional \<open>score\<close>,
  \<open>chunk_id\<close> and \<open>metadata\<close> (read with \<open>doc.get\<close>).
\<close>

record document =
  doc_content :: string
  doc_score :: "real option"
  doc_chunk_id :: "pyval option"
  doc_metadata :: "metadata option"

record rerank_result =
  chunk_id :: pyval
  content :: string
  metadata :: metadata
  original_score :: real
  rerank_score :: real
  combined_score :: real
  original_rank :: nat
  new_rank :: nat

text \<open>
  The cache key is \<open>f"{hash(query)}_{hash(content[:100])}"\<close>: the pair of the two hashes.
  Python's \<open>hash\<close> is a parameter \<open>h\<close> of the functions that use it.
\<close>

type_synonym cache_key = "int \<times> int"

text \<open>
  \<open>AdvancedReranker\<close>. The cross-encoder is external: \<open>model\<close> is \<open>None\<close> when no model
  could be loaded, otherwise it scores one (query, document) pair, or raises (\<open>None\<close>).
  The cache is a dict, kept as an association list in insertion order.
\<close>

record reranker =
  model :: "(string \<Rightarrow> string \<Rightarrow> real option) option"
  batch_size :: nat
  max_length :: nat
  combine_method :: string
  weight_original :: real
  weight_rerank :: real
  cache :: "(cache_key \<times> real) list"
  max_cache_size :: nat

text \<open>\<open>__init__\<close>, after \<open>_load_model\<close> has produced \<open>m\<close>.\<close>

definition new_reranker :: "(string \<Rightarrow> string \<Rightarrow> real option) option \<Rightarrow> reranker" where
  "new_reranker m =
     \<lparr>model = m, batch_size = 32, max_length = 512, combine_method = ''weighted'',
      weight_original = 3 / 10, weight_rerank = 7 / 10, cache = [], max_cache_size = 1000\<rparr>"

definition get_cache_key :: "(string \<Rightarrow> int) \<Rightarrow> string \<Rightarrow> string \<Rightarrow> cache_key" where
  "get_cache_key h query cont = (h query, h (take 100 cont))"

text \<open>
  \<open>_update_cache\<close>. \<open>int(self.max_cache_size * 0.2)\<close> is \<open>max_cache_size div 5\<close> (the float
  product of a size below \<open>10^14\<close> by \<open>0.2\<close> truncates to that). Deleting the first keys of
  the dict drops the oldest insertions; \<open>self.cache[key] = score\<close> overwrites in place or
  appends.
\<close>

definition update_cache :: "reranker \<Rightarrow> cache_key \<Rightarrow> real \<Rightarrow> reranker" where
  "update_cache r key score =
     (let c = (if max_cache_size r \<le> length (cache r)
               then drop (max_cache_size r div 5) (cache r) else cache r)
      in r\<lparr>cache := AList.update key score c\<rparr>)"

definition combine_scores :: "reranker \<Rightarrow> real \<Rightarrow> real \<Rightarrow> py_error + real" where
  "combine_scores r orig rr =
     (if combine_method r = ''weighted'' then Inr (weight_original r * orig + weight_rerank r * rr)
      else if combine_method r = ''multiply'' then Inr (orig * rr)
      else if combine_method r = ''rrf'' then
        (if orig = 0 \<or> rr = 0 \<or> 60 + 1 / orig = 0 \<or> 60 + 1 / rr = 0 then Inl ZeroDivisionError
         else Inr (1 / (60 + 1 / orig) + 1 / (60 + 1 / rr)))
      else Inr rr)"

text \<open>The lexical-overlap score of \<open>_fallback_rerank\<close> for one document.\<close>

definition fallback_score :: "string \<Rightarrow> string \<Rightarrow> real" where
  "fallback_score query cont =
     (let query_terms = remdups (py_split (py_lower query));
          content_lower = py_lower cont;
          matches = length (filter (\<lambda>t. py_in t content_lower) query_terms);
          matches' = (if py_in (py_lower query) content_lower then matches * 2 else matches)
      in if query_terms \<noteq> [] then real matches' / real (length query_terms) else 0)"

definition make_result :: "reranker \<Rightarrow> nat \<Rightarrow> document \<Rightarrow> real \<Rightarrow> py_error + rerank_result" where
  "make_result r i doc rr =
     (let orig = (case doc_score doc of None \<Rightarrow> 0 | Some s \<Rightarrow> s)
      in case combine_scores r orig rr of
           Inl e \<Rightarrow> Inl e
         | Inr comb \<Rightarrow>
             Inr \<lparr>chunk_id = (case doc_chunk_id doc of None \<Rightarrow> PStr (str_nat i) | Some c \<Rightarrow> c),
                  content = doc_content doc,
                  metadata = (case doc_metadata doc of None \<Rightarrow> [] | Some m \<Rightarrow> m),
                  original_score = orig, rerank_score = rr, combined_score = comb,
                  original_rank = i + 1, new_rank = 0\<rparr>)"

text \<open>\<open>for i, result in enumerate(results): result.new_rank = i + 1\<close>\<close>

definition assign_new_rank :: "rerank_result list \<Rightarrow> rerank_result list" where
  "assign_new_rank rs = map (\<lambda>(i, x). x\<lparr>new_rank := i + 1\<rparr>) (enumerate 0 rs)"

definition fallback_rerank ::
  "reranker \<Rightarrow> string \<Rightarrow> document list \<Rightarrow> int option \<Rightarrow> py_error + rerank_result list" where
  "fallback_rerank r query documents top_k =
     (case sequence_sum
             (map (\<lambda>(i, doc). make_result r i doc (fallback_score query (doc_content doc)))
                  (enumerate 0 documents)) of
        Inl e \<Rightarrow> Inl e
      | Inr results \<Rightarrow>
          (let results = assign_new_rank (sort_desc combined_score results)
           in Inr (case top_k of
                     None \<Rightarrow> results
                   | Some k \<Rightarrow> if k \<noteq> 0 then py_slice_to k results else results)))"

text \<open>\<open>range(0, len(pairs), batch_size)\<close>: the batches of \<open>pairs\<close>.\<close>

function batches :: "nat \<Rightarrow> 'a list \<Rightarrow> 'a list list" where
  "batches n xs = (if n = 0 \<or> xs = [] then [] else take n xs # batches n (drop n xs))"
  by pat_completeness auto
termination
  by (relation "measure (\<lambda>(n, xs). length xs)") auto

declare batches.simps [simp del]

text \<open>\<open>model.predict(batch)\<close>: one score per pair, or the call raises.\<close>

definition predict ::
  "(string \<Rightarrow> string \<Rightarrow> real option) \<Rightarrow> (string \<times> string) list \<Rightarrow> py_error + real list" where
  "predict m batch =
     sequence_sum (map (\<lambda>(q, d). case m q d of None \<Rightarrow> Inl ValueError | Some s \<Rightarrow> Inr s) batch)"

text \<open>
  The phases of \<open>rerank\<close>. A cache hit is read from the cache as it is when the call
  starts; the pairs of the other documents go to the model in batches; the scores are
  stored in the cache, one \<open>_update_cache\<close> per scored document.
\<close>

definition cached_score ::
  "reranker \<Rightarrow> (string \<Rightarrow> int) \<Rightarrow> string \<Rightarrow> bool \<Rightarrow> document \<Rightarrow> real option" where
  "cached_score r h query use_cache doc =
     (if use_cache then map_of (cache r) (get_cache_key h query (doc_content doc)) else None)"

definition model_scores ::
  "reranker \<Rightarrow> (string \<Rightarrow> string \<Rightarrow> real option) \<Rightarrow> (string \<times> string) list
     \<Rightarrow> py_error + real list" where
  "model_scores r m pairs =
     (if pairs = [] then Inr []
      else if batch_size r = 0 then Inl ValueError
      else (case sequence_sum (map (predict m) (batches (batch_size r) pairs)) of
              Inl e \<Rightarrow> Inl e
            | Inr bs \<Rightarrow> Inr (concat bs)))"

definition store_scores ::
  "(string \<Rightarrow> int) \<Rightarrow> string \<Rightarrow> (document \<times> real) list \<Rightarrow> reranker \<Rightarrow> reranker" where
  "store_scores h query scored r =
     fold (\<lambda>(doc, score) r'. update_cache r' (get_cache_key h query (doc_content doc)) score)
          scored r"

definition truncate_results :: "int option \<Rightarrow> bool \<Rightarrow> 'a list \<Rightarrow> 'a list" where
  "truncate_results top_k return_all rs =
     (case top_k of
        None \<Rightarrow> rs
      | Some k \<Rightarrow> (if k \<noteq> 0 \<and> \<not> return_all then py_slice_to k rs else rs))"

text \<open>
  \<open>rerank\<close>. The result is the returned list (or the exception that escapes) and the
  reranker with its cache updated. An exception inside the \<open>try\<close> (a failing model call,
  or \<open>range\<close> with a zero step) is answered by the fallback. The last line reads
  \<open>rerank_results[0]\<close> for the log and raises on an empty list.
\<close>

definition rerank ::
  "reranker \<Rightarrow> (string \<Rightarrow> int) \<Rightarrow> string \<Rightarrow> document list \<Rightarrow> int option \<Rightarrow> bool \<Rightarrow> bool
     \<Rightarrow> (py_error + rerank_result list) \<times> reranker" where
  "rerank r h query documents top_k return_all use_cache =
     (case model r of
        None \<Rightarrow> (fallback_rerank r query documents top_k, r)
      | Some m \<Rightarrow>
          (if documents = [] then (fallback_rerank r query documents top_k, r)
           else
             (let idocs = enumerate 0 documents;
                  uncached = filter (\<lambda>(i, doc). cached_score r h query use_cache doc = None) idocs;
                  pairs = map (\<lambda>(i, doc). (query, take (max_length r * 2) (doc_content doc))) uncached
              in (case model_scores r m pairs of
                    Inl e \<Rightarrow> (fallback_rerank r query documents top_k, r)
                  | Inr all_scores \<Rightarrow>
                      (let r' = (if use_cache
                                 then store_scores h query (zip (map snd uncached) all_scores) r
                                 else r);
                           fresh = zip (map fst uncached) all_scores;
                           built = sequence_sum (map (\<lambda>(i, doc).
                             (case cached_score r h query use_cache doc of
                                Some s \<Rightarrow> make_result r i doc s
                              | None \<Rightarrow>
                                  (case map_of fresh i of
                                     None \<Rightarrow> Inl ValueError
                                   | Some s \<Rightarrow> make_result r i doc s))) idocs)
                       in (case built of
                             Inl e \<Rightarrow> (Inl e, r')
                           | Inr results \<Rightarrow>
                               (let ranked = truncate_results top_k return_all
                                      (assign_new_rank (sort_desc combined_score results))
                                in (if ranked = [] then (Inl IndexError, r')
                                    else (Inr ranked, r')))))))))"



section \<open>Rank fusion of the hybrid search engine (\<open>retrieval/hybrid_search.py\<close>)\<close>

text \<open>\<open>match_details\<close> is one of three dicts, or \<open>None\<close>.\<close>

datatype match_details =
    VectorDetails real
  | KeywordDetails real "string list"
  | RerankDetails "real option" "real option"

record search_result =
  sr_chunk_id :: pyval
  sr_content :: string
  sr_metadata :: metadata
  sr_score :: real
  sr_rank :: int
  sr_source :: string
  sr_match_details :: "match_details option"

text \<open>
  The first loop of \<open>_reciprocal_rank_fusion\<close>, over the results of all lists in scan
  order. The contribution of a result is \<open>1 / (k + result.rank)\<close>, on Python ints.
\<close>

fun rrf_scan :: "int \<Rightarrow> search_result list \<Rightarrow> search_result fusion_state
    \<Rightarrow> py_error + search_result fusion_state" where
  "rrf_scan k [] st = Inr st"
| "rrf_scan k (result # rest) st =
     (if k + sr_rank result = 0 then Inl ZeroDivisionError
      else rrf_scan k rest
             (accumulate (sr_chunk_id result) (1 / real_of_int (k + sr_rank result)) result st))"

text \<open>
  The second loop, shared by both fusion methods: the ids by descending fused score, each
  with its stored result, whose \<open>score\<close>, \<open>source\<close> and \<open>rank\<close> are assigned. (The
  results are the objects of the input lists, mutated in place; the returned list is
  what the model returns.)
\<close>

definition fused_list :: "search_result fusion_state \<Rightarrow> py_error + search_result list" where
  "fused_list st =
     sequence_sum
       (map (\<lambda>(i, (cid, score)).
               case dict_get (snd st) cid of
                 Inl e \<Rightarrow> Inl e
               | Inr result \<Rightarrow>
                   Inr (result\<lparr>sr_score := score, sr_source := ''hybrid'', sr_rank := int i + 1\<rparr>))
            (enumerate 0 (sort_desc snd (fst st))))"

definition reciprocal_rank_fusion :: "search_result list list \<Rightarrow> int \<Rightarrow> py_error + search_result list" where
  "reciprocal_rank_fusion result_lists k =
     (case rrf_scan k (concat result_lists) ([], []) of
        Inl e \<Rightarrow> Inl e
      | Inr st \<Rightarrow> fused_list st)"

text \<open>
  \<open>_weighted_fusion\<close>. Each non-empty list is min-max normalised when its score range is
  positive and taken as it is otherwise.
\<close>

definition normalize_scores :: "search_result list \<Rightarrow> search_result list" where
  "normalize_scores result_list =
     (case result_list of
        [] \<Rightarrow> []
      | r # rs \<Rightarrow>
          (let max_score = fold (\<lambda>x m. max m (sr_score x)) rs (sr_score r);
               min_score = fold (\<lambda>x m. min m (sr_score x)) rs (sr_score r);
               range_score = max_score - min_score
           in if range_score > 0
              then map (\<lambda>x. x\<lparr>sr_score := (sr_score x - min_score) / range_score\<rparr>) result_list
              else result_list))"

text \<open>The combination loop over \<open>zip(normalized_lists, weights)\<close>.\<close>

definition weighted_scan ::
  "(search_result list \<times> real) list \<Rightarrow> search_result fusion_state \<Rightarrow> search_result fusion_state" where
  "weighted_scan lws st =
     fold (\<lambda>(result_list, weight) st'.
             fold (\<lambda>result. accumulate (sr_chunk_id result) (sr_score result * weight) result)
                  result_list st')
          lws st"

definition default_weights :: "nat \<Rightarrow> py_error + real list" where
  "default_weights n = (if n = 0 then Inl ZeroDivisionError else Inr (replicate n (1 / real n)))"

definition weighted_fusion ::
  "search_result list list \<Rightarrow> real list option \<Rightarrow> py_error + search_result list" where
  "weighted_fusion result_lists weights =
     (case (case weights of
              None \<Rightarrow> default_weights (length result_lists)
            | Some ws \<Rightarrow> if ws = [] then default_weights (length result_lists) else Inr ws) of
        Inl e \<Rightarrow> Inl e
      | Inr ws \<Rightarrow> fused_list (weighted_scan (zip (map normalize_scores result_lists) ws) ([], [])))"

text \<open>\<open>_fuse_results\<close>: the method defaults to \<open>rrf\<close>, with the default constant 60.\<close>

definition fuse_results ::
  "search_result list list \<Rightarrow> real list option \<Rightarrow> string \<Rightarrow> py_error + search_result list" where
  "fuse_results result_lists weights fusion_method =
     (if fusion_method = ''rrf'' then reciprocal_rank_fusion result_lists 60
      else if fusion_method = ''weighted'' then weighted_fusion result_lists weights
      else Inl ValueError)"

text \<open>
  The specification of reciprocal rank fusion, in its own words: the 1-based rank of an
  id within a list of ids, and the sum of \<open>1 / (k + rank)\<close> over the lists that contain
  the id.
\<close>

definition rank_in :: "'a \<Rightarrow> 'a list \<Rightarrow> nat" where
  "rank_in x xs = Suc (length (takeWhile (\<lambda>y. y \<noteq> x) xs))"

definition rrf_spec_score :: "int \<Rightarrow> 'a \<Rightarrow> 'a list list \<Rightarrow> real" where
  "rrf_spec_score k x id_lists =
     sum_list (map (\<lambda>ids. 1 / real_of_int (k + int (rank_in x ids)))
                   (filter (\<lambda>ids. x \<in> set ids) id_lists))"

text \<open>
  The same sum taken over every occurrence of an id: the 0-based positions at which a
  list of ids holds the id, and the sum of \<open>1 / (k + position + 1)\<close> over the
  occurrences in all lists. A list that holds an id twice contributes twice.
\<close>

definition occurrences :: "'a \<Rightarrow> 'a list \<Rightarrow> nat list" where
  "occurrences x ids = filter (\<lambda>i. ids ! i = x) [0..<length ids]"

definition rrf_occurrence_score :: "int \<Rightarrow> 'a \<Rightarrow> 'a list list \<Rightarrow> real" where
  "rrf_occurrence_score k x id_lists =
     sum_list (map (\<lambda>ids. sum_list (map (\<lambda>i. 1 / real_of_int (k + int (Suc i)))
                                        (occurrences x ids)))
                   id_lists)"

text \<open>A ranked list as the searches build it: the \<open>rank\<close> field is the 1-based position.\<close>

definition ranked_list :: "search_result list \<Rightarrow> bool" where
  "ranked_list l = (map sr_rank l = map (\<lambda>i. int i + 1) [0..<length l])"

text \<open>The items a scan visits: id, contribution and result.\<close>

definition rrf_items :: "int \<Rightarrow> search_result list \<Rightarrow> (pyval \<times> real \<times> search_result) list" where
  "rrf_items k xs = map (\<lambda>r. (sr_chunk_id r, 1 / real_of_int (k + sr_rank r), r)) xs"


section \<open>The vector store (\<open>embeddings/vector_store.py\<close>)\<close>

text \<open>
  A chunk as ingestion hands it over, and a search result of the store: a dict whose
  \<open>rank\<close>, \<open>match_count\<close>, \<open>rrf_score\<close>, \<open>original_score\<close> and \<open>rerank_score\<close> keys are
  present only after the step that writes them.
\<close>

record chunk =
  ch_content :: string
  ch_metadata :: metadata
  ch_chunk_id :: string

record vs_result =
  vr_chunk_id :: pyval
  vr_content :: string
  vr_metadata :: metadata
  vr_score :: real
  vr_rank :: "nat option"
  vr_match_count :: "nat option"
  vr_rrf_score :: "real option"
  vr_original_score :: "real option"
  vr_rerank_score :: "real option"

text \<open>\<open>settings.search\<close>, with the defaults of \<open>config/settings.py\<close>.\<close>

record search_config =
  top_k_vector :: int
  top_k_keyword :: int
  top_k_final :: int
  similarity_threshold :: real

definition default_search_config :: search_config where
  "default_search_config =
     \<lparr>top_k_vector = 50, top_k_keyword = 50, top_k_final = 20, similarity_threshold = 15 / 100\<rparr>"

text \<open>
  What the store calls outside the repository. The embedding model maps a text to a
  vector of type \<open>'v\<close>; \<open>inner_product\<close> is the similarity the flat inner-product index
  computes between the normalised query and a normalised stored vector. The index does
  not say in which order it returns rows of equal similarity: \<open>tie_rank\<close> gives, for a
  query vector and a \<open>k\<close>, the priority of each row among the rows of its similarity
  (the smaller first); nothing is assumed of it. The ChromaDB
  collection belongs to its library: \<open>chroma_query\<close> is the rows (id, document, metadata,
  distance) that \<open>collection.query\<close> answers for a query vector, \<open>n_results\<close> and an
  optional \<open>where\<close>; \<open>chroma_get\<close> is the rows (id, document, metadata) of
  \<open>collection.get\<close> for an optional \<open>where\<close>, or \<open>None\<close> when it raises.
\<close>

record 'v externals =
  embed :: "string \<Rightarrow> 'v"
  inner_product :: "'v \<Rightarrow> 'v \<Rightarrow> real"
  tie_rank :: "'v \<Rightarrow> nat \<Rightarrow> nat \<Rightarrow> nat"
  chroma_query :: "'v \<Rightarrow> int \<Rightarrow> (string \<times> pyval) list option
                     \<Rightarrow> (pyval \<times> string \<times> metadata \<times> real) list"
  chroma_get :: "(string \<times> pyval) list option \<Rightarrow> (pyval \<times> string \<times> metadata) list option"
  config :: search_config

text \<open>
  The FAISS backend keeps three parallel sequences, the rows of the index,
  \<open>faiss_documents\<close> and \<open>faiss_metadata\<close>; \<open>_add_to_faiss\<close> extends the three together,
  so row \<open>i\<close> of each belongs to entry \<open>i\<close>. \<open>reranker\<close> is the cross-encoder's
  \<open>predict\<close> on a list of pairs (\<open>None\<close> when it raises), or \<open>None\<close> when no reranker is
  loaded.
\<close>

record 'v faiss_entry =
  fe_vector :: 'v
  fe_document :: string
  fe_metadata :: metadata

record 'v vector_store =
  store_type :: string
  faiss_entries :: "'v faiss_entry list"
  reranker :: "((string \<times> string) list \<Rightarrow> real list option) option"
  total_chunks :: nat

text \<open>
  \<open>_add_to_faiss\<close>: every chunk is appended; \<open>{**metadata, "chunk_id": id_}\<close> sets the
  id in a copy of the metadata.
\<close>

definition add_to_faiss ::
  "'v vector_store \<Rightarrow> string list \<Rightarrow> 'v list \<Rightarrow> metadata list \<Rightarrow> string list \<Rightarrow> 'v vector_store" where
  "add_to_faiss st texts embeddings metadatas ids =
     st\<lparr>faiss_entries := faiss_entries st @
          map (\<lambda>(v, text, m, cid).
                 \<lparr>fe_vector = v, fe_document = text,
                  fe_metadata = AList.update ''chunk_id'' (PStr cid) m\<rparr>)
              (zip embeddings (zip texts (zip metadatas ids)))\<rparr>"

text \<open>
  \<open>add_chunks\<close>: the number of chunks added and the store afterwards. With the ChromaDB
  backend the rows go to the library's collection.
\<close>

definition add_chunks :: "'v externals \<Rightarrow> 'v vector_store \<Rightarrow> chunk list \<Rightarrow> nat \<times> 'v vector_store" where
  "add_chunks env st chunks =
     (let texts = map ch_content chunks;
          metadatas = map ch_metadata chunks;
          ids = map ch_chunk_id chunks;
          embeddings = map (embed env) texts;
          st' = (if store_type st = ''chromadb'' then st
                 else if store_type st = ''faiss'' then add_to_faiss st texts embeddings metadatas ids
                 else st)
      in (length chunks, st'\<lparr>total_chunks := total_chunks st' + length chunks\<rparr>))"

text \<open>
  The metadata filter of \<open>_search_faiss\<close>:
  \<open>all(metadata.get(key) == value for key, value in filter_dict.items())\<close>, applied when
  \<open>filter_dict\<close> is a non-empty dict.
\<close>

definition filter_match :: "(string \<times> pyval) list option \<Rightarrow> metadata \<Rightarrow> bool" where
  "filter_match filter_dict m =
     (case filter_dict of
        None \<Rightarrow> True
      | Some items \<Rightarrow> list_all (\<lambda>(key, v). meta_get m key = v) items)"

text \<open>
  \<open>faiss_index.search(query_vec, k)\<close> on the flat inner-product index: the \<open>k\<close> entries
  of largest inner product, in descending order, each with its similarity and its row
  number; rows of equal similarity come in the order of their \<open>tie_rank\<close> (the rows
  are put in that order first, and the sort by similarity is stable).
\<close>

definition faiss_index_search :: "'v externals \<Rightarrow> 'v vector_store \<Rightarrow> 'v \<Rightarrow> nat \<Rightarrow> (real \<times> nat) list" where
  "faiss_index_search env st query_vec k =
     take k (sort_desc fst
               (sort_key (\<lambda>(sim, idx). tie_rank env query_vec k idx)
                  (map (\<lambda>(idx, e). (inner_product env query_vec (fe_vector e), idx))
                       (enumerate 0 (faiss_entries st)))))"

text \<open>
  \<open>_search_faiss\<close>. The index answers \<open>k = min(max(top_k * 2, 1), ntotal)\<close> hits; the loop
  then skips the hits whose metadata fail the filter. \<open>rank\<close> is the position of the hit.
  (The index pads its answer with \<open>-1\<close> only when \<open>k\<close> exceeds \<open>ntotal\<close>, which the
  bound on \<open>k\<close> excludes.)
\<close>

definition search_faiss ::
  "'v externals \<Rightarrow> 'v vector_store \<Rightarrow> 'v \<Rightarrow> int \<Rightarrow> (string \<times> pyval) list option \<Rightarrow> vs_result list" where
  "search_faiss env st query_embedding top_k filter_dict =
     (if faiss_entries st = [] then []
      else
        (let k = min (nat (max (top_k * 2) 1)) (length (faiss_entries st));
             hits = faiss_index_search env st query_embedding k
         in map (\<lambda>(i, (dist, idx)).
                   \<lparr>vr_chunk_id = meta_get (fe_metadata (faiss_entries st ! idx)) ''chunk_id'',
                    vr_content = fe_document (faiss_entries st ! idx),
                    vr_metadata = fe_metadata (faiss_entries st ! idx),
                    vr_score = dist, vr_rank = Some (i + 1), vr_match_count = None,
                    vr_rrf_score = None, vr_original_score = None, vr_rerank_score = None\<rparr>)
                (filter (\<lambda>(i, (dist, idx)).
                           filter_match filter_dict (fe_metadata (faiss_entries st ! idx)))
                        (enumerate 0 hits))))"

text \<open>\<open>_search_chromadb\<close>: the rows of the library's answer, formatted.\<close>

definition search_chromadb ::
  "'v externals \<Rightarrow> 'v \<Rightarrow> int \<Rightarrow> (string \<times> pyval) list option \<Rightarrow> vs_result list" where
  "search_chromadb env query_embedding top_k filter_dict =
     map (\<lambda>(i, (cid, doc, m, distance)).
            \<lparr>vr_chunk_id = cid, vr_content = doc, vr_metadata = m, vr_score = 1 - distance,
             vr_rank = Some (i + 1), vr_match_count = None, vr_rrf_score = None,
             vr_original_score = None, vr_rerank_score = None\<rparr>)
         (enumerate 0
            (chroma_query env query_embedding (min (top_k * 2) 100)
               (case filter_dict of None \<Rightarrow> None | Some items \<Rightarrow> if items = [] then None else Some items)))"

text \<open>
  \<open>_rerank_results\<close>. The scores are written into the results one by one; an exception
  (a failing \<open>predict\<close>, or a score list that is too short) leaves the list as it is at
  that moment, unsorted. Otherwise the list is sorted by the combined score and ranked.
\<close>

fun apply_rerank_scores :: "vs_result list \<Rightarrow> real list \<Rightarrow> vs_result list \<times> bool" where
  "apply_rerank_scores [] ss = ([], True)"
| "apply_rerank_scores (r # rs) [] = (r # rs, False)"
| "apply_rerank_scores (r # rs) (s # ss) =
     (let (rs', ok) = apply_rerank_scores rs ss
      in (r\<lparr>vr_original_score := Some (vr_score r), vr_rerank_score := Some s,
            vr_score := 7 / 10 * s + 3 / 10 * vr_score r\<rparr> # rs', ok))"

definition rerank_results :: "'v vector_store \<Rightarrow> string \<Rightarrow> vs_result list \<Rightarrow> vs_result list" where
  "rerank_results st query results =
     (case reranker st of
        None \<Rightarrow> results
      | Some predict_pairs \<Rightarrow>
          if results = [] then results
          else
            (case predict_pairs (map (\<lambda>r. (query, vr_content r)) results) of
               None \<Rightarrow> results
             | Some rerank_scores \<Rightarrow>
                 (let (scored, ok) = apply_rerank_scores results rerank_scores
                  in if ok
                     then map (\<lambda>(i, r). r\<lparr>vr_rank := Some (i + 1)\<rparr>)
                              (enumerate 0 (sort_desc vr_score scored))
                     else scored)))"

text \<open>\<open>top_k or settings.search.top_k_final\<close>\<close>

definition top_k_or :: "int option \<Rightarrow> int \<Rightarrow> int" where
  "top_k_or top_k dflt = (case top_k of None \<Rightarrow> dflt | Some k \<Rightarrow> if k = 0 then dflt else k)"

text \<open>The results of the backend for \<open>search\<close>, after reranking when a reranker is loaded.\<close>

definition search_candidates ::
  "'v externals \<Rightarrow> 'v vector_store \<Rightarrow> string \<Rightarrow> int \<Rightarrow> (string \<times> pyval) list option \<Rightarrow> vs_result list" where
  "search_candidates env st query top_k filter_dict =
     (let query_embedding = embed env query;
          results = (if store_type st = ''chromadb''
                     then search_chromadb env query_embedding top_k filter_dict
                     else if store_type st = ''faiss''
                     then search_faiss env st query_embedding top_k filter_dict
                     else [])
      in if reranker st \<noteq> None \<and> results \<noteq> [] then rerank_results st query results else results)"

text \<open>\<open>search\<close>: the candidates at or above the similarity threshold, then the first \<open>top_k\<close>.\<close>

definition search ::
  "'v externals \<Rightarrow> 'v vector_store \<Rightarrow> string \<Rightarrow> int option \<Rightarrow> (string \<times> pyval) list option \<Rightarrow> vs_result list" where
  "search env st query top_k filter_dict =
     (let top_k = top_k_or top_k (top_k_final (config env));
          results = search_candidates env st query top_k filter_dict;
          threshold = similarity_threshold (config env);
          results = filter (\<lambda>r. vr_score r \<ge> threshold) results
      in py_slice_to top_k results)"

text \<open>
  \<open>_keyword_search\<close>: the documents that contain at least one query term, scored by the
  fraction of the terms they contain.
\<close>

definition keyword_rows :: "'v externals \<Rightarrow> 'v vector_store \<Rightarrow> (pyval \<times> string \<times> metadata) list" where
  "keyword_rows env st =
     (if store_type st = ''chromadb''
      then (case chroma_get env None of None \<Rightarrow> [] | Some rows \<Rightarrow> rows)
      else if store_type st = ''faiss''
      then map (\<lambda>e. (meta_get (fe_metadata e) ''chunk_id'', fe_document e, fe_metadata e))
               (faiss_entries st)
      else [])"

definition keyword_search :: "'v externals \<Rightarrow> 'v vector_store \<Rightarrow> string \<Rightarrow> int \<Rightarrow> vs_result list" where
  "keyword_search env st query top_k =
     (let query_terms = py_split (py_lower query);
          results = concat (map (\<lambda>(cid, doc, m).
             (let matches = length (filter (\<lambda>t. py_in t (py_lower doc)) query_terms)
              in if matches > 0
                 then [\<lparr>vr_chunk_id = cid, vr_content = doc, vr_metadata = m,
                        vr_score = real matches / real (length query_terms),
                        vr_rank = None, vr_match_count = Some matches, vr_rrf_score = None,
                        vr_original_score = None, vr_rerank_score = None\<rparr>]
                 else [])) (keyword_rows env st))
      in py_slice_to top_k (sort_desc vr_score results))"

text \<open>
  \<open>VectorStore._reciprocal_rank_fusion\<close>: the rank is the position in the list, from
  \<open>enumerate\<close>, and the contribution \<open>1 / (k + rank + 1)\<close>. The fused result is a copy of
  the first result seen with the id, with \<open>rrf_score\<close> and \<open>score\<close> set.
\<close>

fun vs_rrf_scan :: "int \<Rightarrow> (nat \<times> vs_result) list \<Rightarrow> vs_result fusion_state
    \<Rightarrow> py_error + vs_result fusion_state" where
  "vs_rrf_scan k [] st = Inr st"
| "vs_rrf_scan k ((rank, result) # rest) st =
     (if k + int rank + 1 = 0 then Inl ZeroDivisionError
      else vs_rrf_scan k rest
             (accumulate (vr_chunk_id result) (1 / real_of_int (k + int rank + 1)) result st))"

definition vs_fused_list :: "vs_result fusion_state \<Rightarrow> py_error + vs_result list" where
  "vs_fused_list st =
     (case sequence_sum
             (map (\<lambda>(cid, rrf_score).
                     case dict_get (snd st) cid of
                       Inl e \<Rightarrow> Inl e
                     | Inr result \<Rightarrow>
                         Inr (result\<lparr>vr_rrf_score := Some rrf_score, vr_score := rrf_score\<rparr>))
                  (fst st)) of
        Inl e \<Rightarrow> Inl e
      | Inr fused_results \<Rightarrow> Inr (sort_desc vr_score fused_results))"

definition vs_reciprocal_rank_fusion :: "vs_result list list \<Rightarrow> int \<Rightarrow> py_error + vs_result list" where
  "vs_reciprocal_rank_fusion result_lists k =
     (case vs_rrf_scan k (concat (map (enumerate 0) result_lists)) ([], []) of
        Inl e \<Rightarrow> Inl e
      | Inr st \<Rightarrow> vs_fused_list st)"

text \<open>
  \<open>hybrid_search\<close>: vector search, keyword search, fusion with \<open>k = 60\<close>, reranking when a
  reranker is loaded, then the first \<open>top_k\<close>.
\<close>

definition hybrid_search ::
  "'v externals \<Rightarrow> 'v vector_store \<Rightarrow> string \<Rightarrow> int option \<Rightarrow> py_error + vs_result list" where
  "hybrid_search env st query top_k =
     (let top_k = top_k_or top_k (top_k_final (config env));
          vector_results = search env st query (Some (top_k_vector (config env))) None;
          keyword_results = keyword_search env st query (top_k_keyword (config env))
      in case vs_reciprocal_rank_fusion [vector_results, keyword_results] 60 of
           Inl e \<Rightarrow> Inl e
         | Inr fused_results \<Rightarrow>
             Inr (py_slice_to top_k
                    (if reranker st \<noteq> None then rerank_results st query fused_results
                     else fused_results)))"

text \<open>The items the store's fusion scan visits: id, contribution and result.\<close>

definition vs_items :: "int \<Rightarrow> (nat \<times> vs_result) list \<Rightarrow> (pyval \<times> real \<times> vs_result) list" where
  "vs_items k xs =
     map (\<lambda>(rank, r). (vr_chunk_id r, 1 / real_of_int (k + int rank + 1), r)) xs"


text \<open>
  The specification's words for the metadata filter: the entries that fail the filter
  are excluded first, over the whole ranking, and the survivors are then truncated to
  \<open>k\<close>.
\<close>

definition filter_then_truncate ::
  "'v externals \<Rightarrow> 'v vector_store \<Rightarrow> 'v \<Rightarrow> nat \<Rightarrow> (string \<times> pyval) list option \<Rightarrow> (real \<times> nat) list" where
  "filter_then_truncate env st query_vec k filter_dict =
     take k (filter (\<lambda>(dist, idx). filter_match filter_dict (fe_metadata (faiss_entries st ! idx)))
               (faiss_index_search env st query_vec (length (faiss_entries st))))"

text \<open>The entries of the store that carry a given chunk id.\<close>

definition entries_with_id :: "'v vector_store \<Rightarrow> string \<Rightarrow> 'v faiss_entry list" where
  "entries_with_id st cid =
     filter (\<lambda>e. meta_get (fe_metadata e) ''chunk_id'' = PStr cid) (faiss_entries st)"

section \<open>Keyword search of the hybrid search engine (\<open>retrieval/hybrid_search.py\<close>)\<close>

text \<open>
  \<open>_tokenize\<close>: \<open>re.sub(r'[^\w\s]', ' ', text)\<close>, \<open>split()\<close>, and the stopword filter. A
  word character is the underscore or a character that \<open>str.isalnum\<close> accepts: below
  code point 256 the ASCII letters and digits, the letters from \<open>U+00C0\<close> to \<open>U+00FF\<close>
  but the two operators \<open>U+00D7\<close> and \<open>U+00F7\<close>, the two ordinal indicators, the micro
  sign, the superscript digits and the three vulgar fractions.
\<close>

definition is_word_char :: "char \<Rightarrow> bool" where
  "is_word_char c =
     (c \<in> set (''abcdefghijklmnopqrstuvwxyzABCDEFGHIJKLMNOPQRSTUVWXYZ0123456789_'' @
               [CHR 0xAA, CHR 0xB2, CHR 0xB3, CHR 0xB5, CHR 0xB9, CHR 0xBA,
                CHR 0xBC, CHR 0xBD, CHR 0xBE, CHR 0xC0, CHR 0xC1, CHR 0xC2,
                CHR 0xC3, CHR 0xC4, CHR 0xC5, CHR 0xC6, CHR 0xC7, CHR 0xC8,
                CHR 0xC9, CHR 0xCA, CHR 0xCB, CHR 0xCC, CHR 0xCD, CHR 0xCE,
                CHR 0xCF, CHR 0xD0, CHR 0xD1, CHR 0xD2, CHR 0xD3, CHR 0xD4,
                CHR 0xD5, CHR 0xD6, CHR 0xD8, CHR 0xD9, CHR 0xDA, CHR 0xDB,
                CHR 0xDC, CHR 0xDD, CHR 0xDE, CHR 0xDF, CHR 0xE0, CHR 0xE1,
                CHR 0xE2, CHR 0xE3, CHR 0xE4, CHR 0xE5, CHR 0xE6, CHR 0xE7,
                CHR 0xE8, CHR 0xE9, CHR 0xEA, CHR 0xEB, CHR 0xEC, CHR 0xED,
                CHR 0xEE, CHR 0xEF, CHR 0xF0, CHR 0xF1, CHR 0xF2, CHR 0xF3,
                CHR 0xF4, CHR 0xF5, CHR 0xF6, CHR 0xF8, CHR 0xF9, CHR 0xFA,
                CHR 0xFB, CHR 0xFC, CHR 0xFD, CHR 0xFE, CHR 0xFF]))"

definition stopwords :: "string list" where
  "stopwords =
     [''el'', ''la'', ''de'', ''que'', ''y'', ''a'', ''en'', ''un'', ''por'', ''con'',
      ''para'', ''es'', ''se'', ''del'', ''al'', ''los'', ''las'', ''una'', ''su'']"

definition strip_punctuation :: "string \<Rightarrow> string" where
  "strip_punctuation text = map (\<lambda>c. if is_word_char c \<or> is_space c then c else CHR '' '') text"

definition tokenize :: "string \<Rightarrow> string list" where
  "tokenize text =
     filter (\<lambda>t. t \<noteq> [] \<and> t \<notin> set stopwords) (py_split (strip_punctuation text))"

text \<open>The engine's BM25 state.\<close>

record hybrid_engine =
  bm25_k1 :: real
  bm25_b :: real
  avg_doc_length :: real
  total_docs :: nat
  idf_cache :: "(string \<times> real) list"

definition new_engine :: hybrid_engine where
  "new_engine = \<lparr>bm25_k1 = 12 / 10, bm25_b = 75 / 100, avg_doc_length = 100, total_docs = 0, idf_cache = []\<rparr>"

text \<open>A document of \<open>_get_all_documents\<close>.\<close>

record kw_doc =
  kd_chunk_id :: pyval
  kd_content :: string
  kd_metadata :: metadata

text \<open>
  \<open>_get_all_documents\<close>. With ChromaDB the rows are the library's answer for the filter
  (an exception gives no documents); with FAISS every entry whose metadata match the
  filter, its id defaulting to the entry's position.
\<close>

definition get_all_documents ::
  "'v externals \<Rightarrow> 'v vector_store \<Rightarrow> (string \<times> pyval) list option \<Rightarrow> kw_doc list" where
  "get_all_documents env st filters =
     (if store_type st = ''chromadb''
      then (case chroma_get env filters of
              None \<Rightarrow> []
            | Some rows \<Rightarrow>
                map (\<lambda>(cid, doc, m). \<lparr>kd_chunk_id = cid, kd_content = doc, kd_metadata = m\<rparr>) rows)
      else if store_type st = ''faiss''
      then map (\<lambda>(i, e).
                  \<lparr>kd_chunk_id = (case map_of (fe_metadata e) ''chunk_id'' of
                                    None \<Rightarrow> PStr (str_nat i) | Some c \<Rightarrow> c),
                   kd_content = fe_document e, kd_metadata = fe_metadata e\<rparr>)
               (filter (\<lambda>(i, e). filter_match filters (fe_metadata e))
                       (enumerate 0 (faiss_entries st)))
      else [])"

text \<open>\<open>_update_doc_stats\<close>\<close>

definition update_doc_stats :: "hybrid_engine \<Rightarrow> kw_doc list \<Rightarrow> hybrid_engine" where
  "update_doc_stats eng docs =
     (if length docs > 0
      then eng\<lparr>total_docs := length docs,
               avg_doc_length :=
                 real (sum_list (map (\<lambda>d. length (tokenize (kd_content d))) docs)) / real (length docs)\<rparr>
      else eng\<lparr>total_docs := length docs, avg_doc_length := 100\<rparr>)"

text \<open>\<open>_get_idf\<close>: the cached value, or the default that is then cached.\<close>

definition get_idf :: "hybrid_engine \<Rightarrow> string \<Rightarrow> real \<times> hybrid_engine" where
  "get_idf eng t =
     (case map_of (idf_cache eng) t of
        Some idf \<Rightarrow> (idf, eng)
      | None \<Rightarrow>
          (let idf = (if total_docs eng > 0 then ln ((real (total_docs eng) + 1) / 2) else 2)
           in (idf, eng\<lparr>idf_cache := AList.update t idf (idf_cache eng)\<rparr>)))"

text \<open>\<open>_calculate_bm25_score\<close>: the loop over the query tokens, then the whole function.\<close>

fun bm25_terms :: "string list \<Rightarrow> string list \<Rightarrow> real \<times> hybrid_engine \<Rightarrow> real \<times> hybrid_engine" where
  "bm25_terms doc_tokens [] acc = acc"
| "bm25_terms doc_tokens (t # ts) (score, eng) =
     (if t \<notin> set doc_tokens then bm25_terms doc_tokens ts (score, eng)
      else
        (let tf = real (count_list doc_tokens t);
             (idf, eng') = get_idf eng t;
             numerator = idf * tf * (bm25_k1 eng' + 1);
             denominator = tf + bm25_k1 eng' *
               (1 - bm25_b eng' + bm25_b eng' * (real (length doc_tokens) / avg_doc_length eng'))
         in bm25_terms doc_tokens ts
              (if denominator > 0 then score + numerator / denominator else score, eng')))"

definition calculate_bm25_score :: "hybrid_engine \<Rightarrow> string list \<Rightarrow> kw_doc \<Rightarrow> real \<times> hybrid_engine" where
  "calculate_bm25_score eng query_tokens document =
     (let doc_tokens = tokenize (py_lower (kd_content document));
          eng' = (if avg_doc_length eng = 0
                  then eng\<lparr>avg_doc_length := max (real (length doc_tokens)) 100\<rparr> else eng)
      in bm25_terms doc_tokens query_tokens (0, eng'))"

text \<open>The scoring loop of \<open>_keyword_search\<close>: the documents with a positive score.\<close>

fun score_documents ::
  "string list \<Rightarrow> kw_doc list \<Rightarrow> hybrid_engine \<Rightarrow> (kw_doc \<times> real) list \<times> hybrid_engine" where
  "score_documents query_tokens [] eng = ([], eng)"
| "score_documents query_tokens (doc # docs) eng =
     (let (score, eng') = calculate_bm25_score eng query_tokens doc;
          (rest, eng'') = score_documents query_tokens docs eng'
      in (if score > 0 then (doc, score) # rest else rest, eng''))"

text \<open>\<open>_get_matched_terms\<close>\<close>

definition get_matched_terms :: "string list \<Rightarrow> string \<Rightarrow> string list" where
  "get_matched_terms query_tokens cont = filter (\<lambda>t. py_in t (py_lower cont)) query_tokens"

text \<open>
  \<open>_keyword_search\<close>: the results and the engine with its statistics updated. The boost
  keywords, when given, are appended to the tokens of the query.
\<close>

definition engine_keyword_search ::
  "'v externals \<Rightarrow> hybrid_engine \<Rightarrow> 'v vector_store \<Rightarrow> string \<Rightarrow> int
     \<Rightarrow> (string \<times> pyval) list option \<Rightarrow> string list option
     \<Rightarrow> search_result list \<times> hybrid_engine" where
  "engine_keyword_search env eng st query top_k filters boost_keywords =
     (let all_docs = get_all_documents env st filters
      in if all_docs = [] then ([], eng)
         else
           (let eng1 = update_doc_stats eng all_docs;
                query_tokens = tokenize (py_lower query) @
                  (case boost_keywords of None \<Rightarrow> [] | Some kws \<Rightarrow> map py_lower kws);
                (scores, eng2) = score_documents query_tokens all_docs eng1;
                scores = sort_desc snd scores
            in (map (\<lambda>(i, (doc, score)).
                       \<lparr>sr_chunk_id = kd_chunk_id doc, sr_content = kd_content doc,
                        sr_metadata = kd_metadata doc, sr_score = score, sr_rank = int i + 1,
                        sr_source = ''keyword'',
                        sr_match_details =
                          Some (KeywordDetails score (get_matched_terms query_tokens (kd_content doc)))\<rparr>)
                    (enumerate 0 (py_slice_to top_k scores)),
                eng2)))"

text \<open>
  The specification's words for the query of the edge case: every word of the
  lowercased query, punctuation removed, is a stopword (an empty query has no word).
\<close>

definition only_stopwords :: "string \<Rightarrow> bool" where
  "only_stopwords query =
     list_all (\<lambda>w. w \<in> set stopwords) (py_split (strip_punctuation (py_lower query)))"

section \<open>Concrete inputs\<close>



text \<open>
  A reranker without a model whose \<open>combine_method\<close> has been set to \<open>rrf\<close>, and one
  candidate that holds no term of the query \<open>renta\<close>.
\<close>

definition r_rrf :: reranker where
  "r_rrf = (new_reranker None)\<lparr>combine_method := ''rrf''\<rparr>"

definition docs1 :: "document list" where
  "docs1 =
     [\<lparr>doc_content = ''plazo anual'', doc_score = Some (1 / 2),
       doc_chunk_id = Some (PStr ''c2''), doc_metadata = None\<rparr>]"

text \<open>Three candidates with the same prior score; the last two both contain the query.\<close>

definition docs3 :: "document list" where
  "docs3 =
     [\<lparr>doc_content = ''Plazo de cinco'', doc_score = Some (1 / 2),
       doc_chunk_id = Some (PStr ''c1''), doc_metadata = None\<rparr>,
      \<lparr>doc_content = ''La RENTA es alta'', doc_score = Some (1 / 2),
       doc_chunk_id = None, doc_metadata = None\<rparr>,
      \<lparr>doc_content = ''renta mensual'', doc_score = Some (1 / 2),
       doc_chunk_id = None, doc_metadata = None\<rparr>]"

definition ranked3 :: "rerank_result list" where
  "ranked3 =
     [\<lparr>chunk_id = PStr ''1'', content = ''La RENTA es alta'', metadata = [],
       original_score = 1 / 2, rerank_score = 2, combined_score = 31 / 20,
       original_rank = 2, new_rank = 1\<rparr>,
      \<lparr>chunk_id = PStr ''2'', content = ''renta mensual'', metadata = [],
       original_score = 1 / 2, rerank_score = 2, combined_score = 31 / 20,
       original_rank = 3, new_rank = 2\<rparr>,
      \<lparr>chunk_id = PStr ''c1'', content = ''Plazo de cinco'', metadata = [],
       original_score = 1 / 2, rerank_score = 0, combined_score = 3 / 20,
       original_rank = 1, new_rank = 3\<rparr>]"

text \<open>
  Two ranked lists for fusion, a vector list and a keyword list. Chunk \<open>b\<close> is in both,
  first in the vector list.
\<close>

definition hy_vec :: "search_result list" where
  "hy_vec =
     [\<lparr>sr_chunk_id = PStr ''a'', sr_content = ''renta'', sr_metadata = [], sr_score = 9 / 10,
       sr_rank = 1, sr_source = ''vector'', sr_match_details = Some (VectorDetails (9 / 10))\<rparr>,
      \<lparr>sr_chunk_id = PStr ''b'', sr_content = ''plazo'', sr_metadata = [(''section'', PInt 2)],
       sr_score = 8 / 10, sr_rank = 2, sr_source = ''vector'',
       sr_match_details = Some (VectorDetails (8 / 10))\<rparr>]"

definition hy_kw :: "search_result list" where
  "hy_kw =
     [\<lparr>sr_chunk_id = PStr ''b'', sr_content = ''plazo'', sr_metadata = [(''section'', PInt 2)],
       sr_score = 2, sr_rank = 1, sr_source = ''keyword'',
       sr_match_details = Some (KeywordDetails 2 [''plazo''])\<rparr>,
      \<lparr>sr_chunk_id = PStr ''c'', sr_content = ''pena'', sr_metadata = [], sr_score = 1,
       sr_rank = 2, sr_source = ''keyword'',
       sr_match_details = Some (KeywordDetails 1 [''pena''])\<rparr>]"

definition hy_fused :: "search_result list" where
  "hy_fused =
     [\<lparr>sr_chunk_id = PStr ''b'', sr_content = ''plazo'', sr_metadata = [(''section'', PInt 2)],
       sr_score = 1 / 62 + 1 / 61, sr_rank = 1, sr_source = ''hybrid'',
       sr_match_details = Some (VectorDetails (8 / 10))\<rparr>,
      \<lparr>sr_chunk_id = PStr ''a'', sr_content = ''renta'', sr_metadata = [], sr_score = 1 / 61,
       sr_rank = 2, sr_source = ''hybrid'', sr_match_details = Some (VectorDetails (9 / 10))\<rparr>,
      \<lparr>sr_chunk_id = PStr ''c'', sr_content = ''pena'', sr_metadata = [], sr_score = 1 / 62,
       sr_rank = 3, sr_source = ''hybrid'',
       sr_match_details = Some (KeywordDetails 1 [''pena''])\<rparr>]"

definition vs_vec :: "vs_result list" where
  "vs_vec =
     [\<lparr>vr_chunk_id = PStr ''a'', vr_content = ''renta'', vr_metadata = [], vr_score = 9 / 10,
       vr_rank = Some 1, vr_match_count = None, vr_rrf_score = None,
       vr_original_score = None, vr_rerank_score = None\<rparr>,
      \<lparr>vr_chunk_id = PStr ''b'', vr_content = ''plazo'', vr_metadata = [], vr_score = 8 / 10,
       vr_rank = Some 2, vr_match_count = None, vr_rrf_score = None,
       vr_original_score = None, vr_rerank_score = None\<rparr>]"

definition vs_kw :: "vs_result list" where
  "vs_kw =
     [\<lparr>vr_chunk_id = PStr ''b'', vr_content = ''plazo'', vr_metadata = [], vr_score = 1,
       vr_rank = None, vr_match_count = Some 2, vr_rrf_score = None,
       vr_original_score = None, vr_rerank_score = None\<rparr>,
      \<lparr>vr_chunk_id = PStr ''c'', vr_content = ''pena'', vr_metadata = [], vr_score = 1 / 2,
       vr_rank = None, vr_match_count = Some 1, vr_rrf_score = None,
       vr_original_score = None, vr_rerank_score = None\<rparr>]"

definition vs_fused :: "vs_result list" where
  "vs_fused =
     [\<lparr>vr_chunk_id = PStr ''b'', vr_content = ''plazo'', vr_metadata = [],
       vr_score = 1 / 62 + 1 / 61, vr_rank = Some 2, vr_match_count = None,
       vr_rrf_score = Some (1 / 62 + 1 / 61), vr_original_score = None, vr_rerank_score = None\<rparr>,
      \<lparr>vr_chunk_id = PStr ''a'', vr_content = ''renta'', vr_metadata = [], vr_score = 1 / 61,
       vr_rank = Some 1, vr_match_count = None, vr_rrf_score = Some (1 / 61),
       vr_original_score = None, vr_rerank_score = None\<rparr>,
      \<lparr>vr_chunk_id = PStr ''c'', vr_content = ''pena'', vr_metadata = [], vr_score = 1 / 62,
       vr_rank = None, vr_match_count = Some 1, vr_rrf_score = Some (1 / 62),
       vr_original_score = None, vr_rerank_score = None\<rparr>]"



text \<open>
  A FAISS store of three chunks. The environment gives each stored vector (a number)
  itself as its similarity to any query, and ties in row order; the metadata are the
  chunk id and a type.
\<close>

definition env0 :: "real externals" where
  "env0 = \<lparr>embed = (\<lambda>text. 0), inner_product = (\<lambda>q v. v),
            tie_rank = (\<lambda>q k idx. idx),
            chroma_query = (\<lambda>q n w. []), chroma_get = (\<lambda>w. None),
            config = default_search_config\<rparr>"

definition store3 :: "real vector_store" where
  "store3 =
     \<lparr>store_type = ''faiss'',
      faiss_entries =
        [\<lparr>fe_vector = 9 / 10, fe_document = ''renta mensual'',
          fe_metadata = [(''type'', PStr ''A''), (''chunk_id'', PStr ''c1'')]\<rparr>,
         \<lparr>fe_vector = 8 / 10, fe_document = ''plazo anual'',
          fe_metadata = [(''type'', PStr ''A''), (''chunk_id'', PStr ''c2'')]\<rparr>,
         \<lparr>fe_vector = 1 / 10, fe_document = ''renta de garaje'',
          fe_metadata = [(''type'', PStr ''B''), (''chunk_id'', PStr ''c3'')]\<rparr>],
      reranker = None, total_chunks = 3\<rparr>"


text \<open>An empty FAISS store, a chunk, and a store whose third entry alone has type \<open>B\<close>.\<close>

definition store0 :: "real vector_store" where
  "store0 = \<lparr>store_type = ''faiss'', faiss_entries = [], reranker = None, total_chunks = 0\<rparr>"

definition env1 :: "real externals" where
  "env1 = \<lparr>embed = (\<lambda>text. 1), inner_product = (\<lambda>q v. q * v),
            tie_rank = (\<lambda>q k idx. idx),
            chroma_query = (\<lambda>q n w. []), chroma_get = (\<lambda>w. None),
            config = default_search_config\<rparr>"

definition chunk1 :: chunk where
  "chunk1 = \<lparr>ch_content = ''renta mensual'', ch_metadata = [(''type'', PStr ''A'')],
             ch_chunk_id = ''c1''\<rparr>"

definition store4 :: "real vector_store" where
  "store4 =
     \<lparr>store_type = ''faiss'',
      faiss_entries =
        [\<lparr>fe_vector = 9 / 10, fe_document = ''renta mensual'',
          fe_metadata = [(''type'', PStr ''A''), (''chunk_id'', PStr ''c1'')]\<rparr>,
         \<lparr>fe_vector = 8 / 10, fe_document = ''plazo anual'',
          fe_metadata = [(''type'', PStr ''A''), (''chunk_id'', PStr ''c2'')]\<rparr>,
         \<lparr>fe_vector = 7 / 10, fe_document = ''renta de garaje'',
          fe_metadata = [(''type'', PStr ''B''), (''chunk_id'', PStr ''c3'')]\<rparr>],
      reranker = None, total_chunks = 3\<rparr>"

text \<open>
  What \<open>search\<close> answers after the chunk \<open>c1\<close> has been added twice to an empty store:
  one list that holds the id twice. The same list as the engine's vector search keeps it.
\<close>

definition vs_dup :: "vs_result list" where
  "vs_dup =
     [\<lparr>vr_chunk_id = PStr ''c1'', vr_content = ''renta mensual'',
       vr_metadata = [(''type'', PStr ''A''), (''chunk_id'', PStr ''c1'')], vr_score = 1,
       vr_rank = Some 1, vr_match_count = None, vr_rrf_score = None,
       vr_original_score = None, vr_rerank_score = None\<rparr>,
      \<lparr>vr_chunk_id = PStr ''c1'', vr_content = ''renta mensual'',
       vr_metadata = [(''type'', PStr ''A''), (''chunk_id'', PStr ''c1'')], vr_score = 1,
       vr_rank = Some 2, vr_match_count = None, vr_rrf_score = None,
       vr_original_score = None, vr_rerank_score = None\<rparr>]"

definition hy_dup :: "search_result list" where
  "hy_dup =
     [\<lparr>sr_chunk_id = PStr ''c1'', sr_content = ''renta mensual'',
       sr_metadata = [(''type'', PStr ''A''), (''chunk_id'', PStr ''c1'')], sr_score = 1,
       sr_rank = 1, sr_source = ''vector'', sr_match_details = Some (VectorDetails 1)\<rparr>,
      \<lparr>sr_chunk_id = PStr ''c1'', sr_content = ''renta mensual'',
       sr_metadata = [(''type'', PStr ''A''), (''chunk_id'', PStr ''c1'')], sr_score = 1,
       sr_rank = 2, sr_source = ''vector'', sr_match_details = Some (VectorDetails 1)\<rparr>]"

section \<open>Properties of sorting and of fallible loops\<close>

lemma insort_desc_lex:
  fixes k :: "'a \<Rightarrow> real" and g :: "'a \<Rightarrow> nat"
  assumes "sorted_wrt (\<lambda>a b. k a < k b \<or> (k a = k b \<and> g a < g b)) ys"
      and "\<forall>y\<in>set ys. g x < g y"
  shows "sorted_wrt (\<lambda>a b. k a < k b \<or> (k a = k b \<and> g a < g b)) (insort_key k x ys)"
  using assms
  by (induction ys) (auto simp: set_insort_key)

lemma sort_desc_lex:
  fixes f :: "'a \<Rightarrow> real" and g :: "'a \<Rightarrow> nat"
  assumes "sorted_wrt (\<lambda>a b. g a < g b) xs"
  shows "sorted_wrt (\<lambda>a b. f b < f a \<or> (f a = f b \<and> g a < g b)) (sort_desc f xs)"
  using assms
proof (induction xs)
  case Nil
  then show ?case by (simp add: sort_desc_def)
next
  case (Cons x xs)
  have "sorted_wrt (\<lambda>a b. - f a < - f b \<or> (- f a = - f b \<and> g a < g b)) (insort_key (\<lambda>x. - f x) x (sort_key (\<lambda>x. - f x) xs))"
    using Cons by (intro insort_desc_lex) (auto simp: sort_desc_def)
  then show ?case by (simp add: sort_desc_def)
qed

lemma sequence_sum_map:
  "sequence_sum (map f xs) = Inr ys \<Longrightarrow>
   length ys = length xs \<and> (\<forall>i<length xs. f (xs ! i) = Inr (ys ! i))"
proof (induction xs arbitrary: ys)
  case Nil
  then show ?case by simp
next
  case (Cons x xs)
  then show ?case
    by (auto split: sum.splits simp: nth_Cons split: nat.splits)
qed


section \<open>Properties of the reranker\<close>

subsection \<open>The score cache\<close>



lemma update_cache_max [simp]: "max_cache_size (update_cache r key score) = max_cache_size r"
  by (simp add: update_cache_def Let_def)







subsection \<open>Ranking\<close>

lemma make_result_fields:
  assumes "make_result r i doc s = Inr x"
  shows "original_rank x = i + 1" and "content x = doc_content doc" and "rerank_score x = s"
    and "original_score x = (case doc_score doc of None \<Rightarrow> 0 | Some v \<Rightarrow> v)"
    and "combine_scores r (original_score x) (rerank_score x) = Inr (combined_score x)"
  using assms by (auto simp: make_result_def Let_def split: sum.splits)

lemma assign_new_rank_length [simp]: "length (assign_new_rank rs) = length rs"
  by (simp add: assign_new_rank_def)

lemma assign_new_rank_nth:
  "i < length rs \<Longrightarrow> assign_new_rank rs ! i = (rs ! i)\<lparr>new_rank := i + 1\<rparr>"
  by (simp add: assign_new_rank_def nth_enumerate_eq)

lemma py_slice_to_take: "\<exists>m. py_slice_to k xs = take m xs"
  by (auto simp: py_slice_to_def)

lemma truncate_results_take: "\<exists>m. truncate_results top_k ra xs = take m xs"
proof (cases "truncate_results top_k ra xs = xs")
  case True
  then have "truncate_results top_k ra xs = take (length xs) xs" by simp
  then show ?thesis by blast
next
  case False
  then show ?thesis using py_slice_to_take
    by (auto simp: truncate_results_def split: option.splits if_splits)
qed

lemma built_original_ranks:
  assumes "sequence_sum (map (\<lambda>(i, doc). g i doc) (enumerate 0 docs)) = Inr ys"
      and "\<And>i doc x. g i doc = Inr x \<Longrightarrow> original_rank x = i + 1"
  shows "sorted_wrt (\<lambda>a b. original_rank a < original_rank b) ys"
proof -
  from sequence_sum_map [OF assms(1)]
  have len: "length ys = length docs"
    and nth: "\<And>i. i < length docs \<Longrightarrow> g i (docs ! i) = Inr (ys ! i)"
    by (auto simp: nth_enumerate_eq)
  have "original_rank (ys ! i) = i + 1" if "i < length ys" for i
    using nth [of i] that len assms(2) by simp
  then show ?thesis
    by (simp add: sorted_wrt_iff_nth_less)
qed

lemma ranked_order:
  assumes srt: "sorted_wrt (\<lambda>a b. original_rank a < original_rank b) ys"
      and L: "L = take m (assign_new_rank (sort_desc combined_score ys))"
  shows "\<forall>a<length L. new_rank (L ! a) = a + 1"
    and "\<forall>a<length L. \<forall>b<length L. a < b \<longrightarrow>
           combined_score (L ! b) < combined_score (L ! a) \<or>
           (combined_score (L ! a) = combined_score (L ! b) \<and> original_rank (L ! a) < original_rank (L ! b))"
proof -
  let ?S = "sort_desc combined_score ys"
  have nthL: "L ! a = (?S ! a)\<lparr>new_rank := a + 1\<rparr>" and "a < length ?S" if "a < length L" for a
    using that L by (simp_all add: assign_new_rank_nth)
  then show "\<forall>a<length L. new_rank (L ! a) = a + 1" by simp
  have "sorted_wrt (\<lambda>a b. combined_score b < combined_score a \<or>
          (combined_score a = combined_score b \<and> original_rank a < original_rank b)) ?S"
    using srt by (rule sort_desc_lex)
  then have S: "combined_score (?S ! b) < combined_score (?S ! a) \<or>
          (combined_score (?S ! a) = combined_score (?S ! b) \<and> original_rank (?S ! a) < original_rank (?S ! b))"
    if "a < b" "b < length ?S" for a b
    using that by (simp add: sorted_wrt_iff_nth_less)
  show "\<forall>a<length L. \<forall>b<length L. a < b \<longrightarrow>
           combined_score (L ! b) < combined_score (L ! a) \<or>
           (combined_score (L ! a) = combined_score (L ! b) \<and> original_rank (L ! a) < original_rank (L ! b))"
  proof (intro allI impI)
    fix a b assume ab: "a < length L" "b < length L" "a < b"
    have "b < length ?S" using ab L by simp
    from S [OF ab(3) this] nthL(1) [OF ab(1)] nthL(1) [OF ab(2)]
    show "combined_score (L ! b) < combined_score (L ! a) \<or>
           (combined_score (L ! a) = combined_score (L ! b) \<and> original_rank (L ! a) < original_rank (L ! b))"
      by simp
  qed
qed

lemma fallback_rerank_shape:
  assumes "fallback_rerank r q docs k = Inr rs"
  shows "\<exists>ys m. sorted_wrt (\<lambda>a b. original_rank a < original_rank b) ys \<and>
           rs = take m (assign_new_rank (sort_desc combined_score ys))"
proof -
  let ?g = "\<lambda>i doc. make_result r i doc (fallback_score q (doc_content doc))"
  from assms obtain ys where ys: "sequence_sum (map (\<lambda>(i, doc). ?g i doc) (enumerate 0 docs)) = Inr ys"
    by (auto simp: fallback_rerank_def split: sum.splits)
  have srt: "sorted_wrt (\<lambda>a b. original_rank a < original_rank b) ys"
    using built_original_ranks [of ?g docs ys, OF ys] make_result_fields(1) by blast
  let ?F = "assign_new_rank (sort_desc combined_score ys)"
  have "rs = ?F \<or> (\<exists>n. rs = py_slice_to n ?F)"
    using assms ys by (auto simp: fallback_rerank_def Let_def split: option.splits if_splits)
  then have "\<exists>m. rs = take m ?F"
  proof
    assume "rs = ?F"
    then have "rs = take (length ?F) ?F" by simp
    then show ?thesis by blast
  next
    assume "\<exists>n. rs = py_slice_to n ?F"
    then show ?thesis using py_slice_to_take by metis
  qed
  with srt show ?thesis by blast
qed

lemma rerank_shape:
  assumes "fst (rerank r h q docs k ra uc) = Inr rs"
  shows "\<exists>ys m. sorted_wrt (\<lambda>a b. original_rank a < original_rank b) ys \<and>
           rs = take m (assign_new_rank (sort_desc combined_score ys))"
proof (cases "fst (rerank r h q docs k ra uc) = fallback_rerank r q docs k")
  case True
  then show ?thesis using assms fallback_rerank_shape by metis
next
  case False
  have "model r \<noteq> None"
  proof
    assume "model r = None"
    then have "fst (rerank r h q docs k ra uc) = fallback_rerank r q docs k"
      by (simp add: rerank_def)
    with False show False by simp
  qed
  then obtain m where m: "model r = Some m" by blast
  have ne: "docs \<noteq> []"
  proof
    assume "docs = []"
    then have "fst (rerank r h q docs k ra uc) = fallback_rerank r q docs k"
      using m by (simp add: rerank_def)
    with False show False by simp
  qed
  let ?unc = "filter (\<lambda>(i, doc). cached_score r h q uc doc = None) (enumerate 0 docs)"
  let ?pairs = "map (\<lambda>(i, doc). (q, take (max_length r * 2) (doc_content doc))) ?unc"
  from False m ne obtain sc where sc: "model_scores r m ?pairs = Inr sc"
    by (cases "model_scores r m ?pairs") (auto simp: rerank_def Let_def)
  let ?g = "\<lambda>i doc. (case cached_score r h q uc doc of
                                Some s \<Rightarrow> make_result r i doc s
                              | None \<Rightarrow>
                                  (case map_of (zip (map fst ?unc) sc) i of
                                     None \<Rightarrow> Inl ValueError
                                   | Some s \<Rightarrow> make_result r i doc s))"
  from assms m ne sc obtain ys where
    ys: "sequence_sum (map (\<lambda>(i, doc). ?g i doc) (enumerate 0 docs)) = Inr ys"
    and rs: "rs = truncate_results k ra (assign_new_rank (sort_desc combined_score ys))"
    by (auto simp: rerank_def Let_def split: sum.splits if_splits)
  have "\<And>i doc x. ?g i doc = Inr x \<Longrightarrow> original_rank x = i + 1"
    by (auto split: option.splits dest: make_result_fields(1))
  from built_original_ranks [of ?g docs ys, OF ys this]
  have "sorted_wrt (\<lambda>a b. original_rank a < original_rank b) ys" .
  then show ?thesis using rs truncate_results_take by metis
qed

lemma ranked_position:
  assumes srt: "sorted_wrt (\<lambda>a b. original_rank a < original_rank b) ys"
      and L: "L = take m (assign_new_rank (sort_desc combined_score ys))"
      and a: "a < length L" and b: "b < length L"
      and ord: "combined_score (L ! b) < combined_score (L ! a) \<or>
                (combined_score (L ! a) = combined_score (L ! b) \<and>
                 original_rank (L ! a) < original_rank (L ! b))"
  shows "a < b"
proof (rule ccontr)
  assume "\<not> a < b"
  then consider "a = b" | "b < a" by linarith
  then show False
  proof cases
    case 1
    then show ?thesis using ord by simp
  next
    case 2
    with ranked_order(2) [OF srt L] a b
    have "combined_score (L ! a) < combined_score (L ! b) \<or>
          (combined_score (L ! b) = combined_score (L ! a) \<and>
           original_rank (L ! b) < original_rank (L ! a))"
      by blast
    then show ?thesis using ord by auto
  qed
qed

text \<open>
  Claim C6. In every list returned by \<open>rerank\<close>, through the model or through the
  fallback, the result at position \<open>a\<close> has \<open>new_rank = a + 1\<close>; a result with a larger
  \<open>combined_score\<close> has the smaller \<open>new_rank\<close>; and of two results with equal
  \<open>combined_score\<close> the one with the smaller \<open>original_rank\<close> has the smaller \<open>new_rank\<close>
  (the sort is stable).
\<close>

theorem rerank_new_rank_order:
  assumes "fst (rerank r h query documents top_k return_all use_cache) = Inr rs"
      and "a < length rs" and "b < length rs" and "c < length rs" and "d < length rs"
  shows "new_rank (rs ! a) = a + 1 \<and>
         (combined_score (rs ! b) < combined_score (rs ! a) \<longrightarrow>
            new_rank (rs ! a) < new_rank (rs ! b)) \<and>
         (combined_score (rs ! c) = combined_score (rs ! d) \<and>
          original_rank (rs ! c) < original_rank (rs ! d) \<longrightarrow>
            new_rank (rs ! c) < new_rank (rs ! d))"
proof -
  from rerank_shape [OF assms(1)] obtain ys m where
    srt: "sorted_wrt (\<lambda>a b. original_rank a < original_rank b) ys" and
    rs: "rs = take m (assign_new_rank (sort_desc combined_score ys))" by blast
  have nr: "new_rank (rs ! i) = i + 1" if "i < length rs" for i
    using ranked_order(1) [OF srt rs] that by simp
  have "a < b" if "combined_score (rs ! b) < combined_score (rs ! a)"
    using ranked_position [OF srt rs assms(2) assms(3)] that by simp
  moreover have "c < d" if "combined_score (rs ! c) = combined_score (rs ! d)"
      and "original_rank (rs ! c) < original_rank (rs ! d)"
    using ranked_position [OF srt rs assms(4) assms(5)] that by simp
  ultimately show ?thesis using nr assms by auto
qed

theorem rerank_new_rank_order_witness:
  "fst (rerank (new_reranker None) (\<lambda>s. 0) ''Renta'' docs3 None False True) = Inr ranked3 \<and>
   0 < length ranked3 \<and> 2 < length ranked3 \<and> 1 < length ranked3 \<and>
   combined_score (ranked3 ! 2) < combined_score (ranked3 ! 0) \<and>
   combined_score (ranked3 ! 0) = combined_score (ranked3 ! 1) \<and>
   original_rank (ranked3 ! 0) < original_rank (ranked3 ! 1) \<and>
   new_rank (ranked3 ! 0) = 0 + 1 \<and>
   new_rank (ranked3 ! 0) < new_rank (ranked3 ! 2) \<and>
   new_rank (ranked3 ! 0) < new_rank (ranked3 ! 1)"
proof -
  have run: "fst (rerank (new_reranker None) (\<lambda>s. 0) ''Renta'' docs3 None False True) = Inr ranked3"
    by (simp add: rerank_def new_reranker_def fallback_rerank_def docs3_def ranked3_def
        make_result_def combine_scores_def fallback_score_def py_split_def py_lower_def
        lower_char_def is_space_def sort_desc_def assign_new_rank_def digit_char_def Let_def)
  have len: "length ranked3 = 3" by (simp add: ranked3_def)
  from rerank_new_rank_order [OF run, of 0 2 0 1] len run show ?thesis
    by (simp add: ranked3_def)
qed

lemma sequence_sum_total:
  "(\<forall>x\<in>set xs. \<exists>y. f x = Inr y) \<Longrightarrow> \<exists>ys. sequence_sum (map f xs) = Inr ys"
  by (induction xs) (auto split: sum.splits)

lemma fallback_score_fraction:
  "fallback_score query cont =
     (let terms = set (py_split (py_lower query));
          present = {t \<in> terms. py_in t (py_lower cont)}
      in if terms = {} then 0
         else if py_in (py_lower query) (py_lower cont)
              then 2 * (real (card present) / real (card terms))
              else real (card present) / real (card terms))"
proof -
  let ?ts = "py_split (py_lower query)"
  let ?P = "\<lambda>t. py_in t (py_lower cont)"
  have "length (filter ?P (remdups ?ts)) = card (set (filter ?P ?ts))"
    by (metis length_remdups_card_conv remdups_filter)
  also have "set (filter ?P ?ts) = {t \<in> set ?ts. ?P t}" by auto
  finally have 1: "length (filter ?P (remdups ?ts)) = card {t \<in> set ?ts. ?P t}" .
  have 2: "length (remdups ?ts) = card (set ?ts)" by (rule length_remdups_card_conv)
  show ?thesis
    by (simp add: fallback_score_def Let_def 1 2)
qed

lemma combine_scores_total:
  "combine_method r \<noteq> ''rrf'' \<Longrightarrow> \<exists>c. combine_scores r a b = Inr c"
  by (simp add: combine_scores_def)

lemma make_result_total:
  "combine_method r \<noteq> ''rrf'' \<Longrightarrow> \<exists>x. make_result r i doc s = Inr x"
proof -
  assume "combine_method r \<noteq> ''rrf''"
  from combine_scores_total [OF this]
  obtain c where "combine_scores r (case doc_score doc of None \<Rightarrow> 0 | Some v \<Rightarrow> v) s = Inr c"
    by blast
  then show ?thesis by (simp add: make_result_def Let_def)
qed

lemma set_assign_new_rank:
  "x \<in> set (assign_new_rank rs) \<Longrightarrow> \<exists>y\<in>set rs. \<exists>n. x = y\<lparr>new_rank := n\<rparr>"
  by (auto simp: assign_new_rank_def enumerate_eq_zip dest: set_zip_rightD)

lemma original_rank_assign_new_rank:
  "original_rank ` set (assign_new_rank rs) = original_rank ` set rs"
proof -
  have "map original_rank (assign_new_rank rs) = map original_rank rs"
    by (rule nth_equalityI) (simp_all add: assign_new_rank_nth)
  then have "set (map original_rank (assign_new_rank rs)) = set (map original_rank rs)" by simp
  then show ?thesis by simp
qed

text \<open>
  The fallback outside the reciprocal mode. When the rerank model is unavailable and
  \<open>combine_method\<close> is not \<open>rrf\<close> (the constructor sets \<open>weighted\<close>), \<open>rerank\<close> returns
  a list and leaves the reranker as it is. The list is the full ranking \<open>full\<close>, one
  result per candidate, cut to \<open>top_k\<close> when one is given. Each result keeps its
  candidate's content and original score, its \<open>rerank_score\<close> is the fraction of the
  distinct query terms that occur in the content, doubled when the lowercased query
  occurs in the content as a whole, and its \<open>combined_score\<close> is what
  \<open>_combine_scores\<close> computes from the two.
\<close>

theorem fallback_rerank_without_model:
  assumes "model r = None" and "combine_method r \<noteq> ''rrf''"
  shows "\<exists>full.
      rerank r h query documents top_k return_all use_cache =
        (Inr (case top_k of None \<Rightarrow> full
              | Some k \<Rightarrow> if k \<noteq> 0 then py_slice_to k full else full), r) \<and>
      length full = length documents \<and>
      original_rank ` set full = {1..length documents} \<and>
      (\<forall>x\<in>set full.
         let doc = documents ! (original_rank x - 1);
             terms = set (py_split (py_lower query));
             present = {t \<in> terms. py_in t (py_lower (doc_content doc))}
         in content x = doc_content doc \<and>
            original_score x = (case doc_score doc of None \<Rightarrow> 0 | Some s \<Rightarrow> s) \<and>
            rerank_score x =
              (if terms = {} then 0
               else if py_in (py_lower query) (py_lower (doc_content doc))
                    then 2 * (real (card present) / real (card terms))
                    else real (card present) / real (card terms)) \<and>
            combine_scores r (original_score x) (rerank_score x) = Inr (combined_score x))"
proof -
  let ?f = "\<lambda>(i, doc). make_result r i doc (fallback_score query (doc_content doc))"
  have "\<forall>p\<in>set (enumerate 0 documents). \<exists>y. ?f p = Inr y"
    using make_result_total [OF assms(2)] by auto
  from sequence_sum_total [OF this] obtain ys where
    ys: "sequence_sum (map ?f (enumerate 0 documents)) = Inr ys" by blast
  from sequence_sum_map [OF ys]
  have len: "length ys = length documents"
    and nth: "\<And>i. i < length documents \<Longrightarrow>
       make_result r i (documents ! i) (fallback_score query (doc_content (documents ! i))) = Inr (ys ! i)"
    by (auto simp: nth_enumerate_eq)
  let ?full = "assign_new_rank (sort_desc combined_score ys)"
  have run: "rerank r h query documents top_k return_all use_cache =
        (Inr (case top_k of None \<Rightarrow> ?full
              | Some k \<Rightarrow> if k \<noteq> 0 then py_slice_to k ?full else ?full), r)"
    using assms(1) ys by (simp add: rerank_def fallback_rerank_def Let_def)
  have lenf: "length ?full = length documents"
    by (simp add: len sort_desc_def)
  have rk: "original_rank (ys ! i) = i + 1" if "i < length documents" for i
    using make_result_fields(1) [OF nth [OF that]] .
  have "original_rank ` set ys = {1..length documents}"
  proof (intro set_eqI iffI)
    fix k assume "k \<in> original_rank ` set ys"
    then obtain i where "i < length documents" "k = original_rank (ys ! i)"
      by (auto simp: in_set_conv_nth len)
    then show "k \<in> {1..length documents}" using rk by simp
  next
    fix k assume "k \<in> {1..length documents}"
    then have k: "k - 1 < length documents" "k - 1 + 1 = k" by auto
    from rk [OF k(1)] k(2) have "original_rank (ys ! (k - 1)) = k" by simp
    with k(1) have "k - 1 < length documents" "original_rank (ys ! (k - 1)) = k" by simp_all
    then show "k \<in> original_rank ` set ys"
      using len by (metis imageI nth_mem)
  qed
  then have img: "original_rank ` set ?full = {1..length documents}"
    by (simp add: original_rank_assign_new_rank sort_desc_def)
  have each: "let doc = documents ! (original_rank x - 1);
             terms = set (py_split (py_lower query));
             present = {t \<in> terms. py_in t (py_lower (doc_content doc))}
         in content x = doc_content doc \<and>
            original_score x = (case doc_score doc of None \<Rightarrow> 0 | Some s \<Rightarrow> s) \<and>
            rerank_score x =
              (if terms = {} then 0
               else if py_in (py_lower query) (py_lower (doc_content doc))
                    then 2 * (real (card present) / real (card terms))
                    else real (card present) / real (card terms)) \<and>
            combine_scores r (original_score x) (rerank_score x) = Inr (combined_score x)"
    if "x \<in> set ?full" for x
  proof -
    from set_assign_new_rank [OF that] obtain y n where
      y: "y \<in> set ys" and x: "x = y\<lparr>new_rank := n\<rparr>" by (auto simp: sort_desc_def)
    from y obtain i where i: "i < length documents" "y = ys ! i"
      by (auto simp: in_set_conv_nth len)
    note mr = make_result_fields [OF nth [OF i(1)]]
    have "original_rank x - 1 = i" using mr(1) x i by simp
    then show ?thesis
      using mr x i fallback_score_fraction [of query "doc_content (documents ! i)"]
      by (simp add: Let_def)
  qed
  show ?thesis
    using run lenf img each by blast
qed


theorem fallback_rerank_without_model_witness:
  "model (new_reranker None) = None \<and> combine_method (new_reranker None) \<noteq> ''rrf'' \<and>
   rerank (new_reranker None) (\<lambda>s. 0) ''Renta'' docs3 None False True =
     (Inr ranked3, new_reranker None) \<and>
   length ranked3 = length docs3 \<and>
   map content ranked3 = map (\<lambda>x. doc_content (docs3 ! (original_rank x - 1))) ranked3"
proof -
  have h1: "model (new_reranker None) = None" and h2: "combine_method (new_reranker None) \<noteq> ''rrf''"
    by (simp_all add: new_reranker_def)
  have run: "fst (rerank (new_reranker None) (\<lambda>s. 0) ''Renta'' docs3 None False True) = Inr ranked3"
    by (simp add: rerank_def new_reranker_def fallback_rerank_def docs3_def ranked3_def
        make_result_def combine_scores_def fallback_score_def py_split_def py_lower_def
        lower_char_def is_space_def sort_desc_def assign_new_rank_def digit_char_def Let_def)
  from fallback_rerank_without_model [OF h1 h2, of "\<lambda>s. 0" "''Renta''" docs3 None False True]
  obtain full where
    full: "rerank (new_reranker None) (\<lambda>s. 0) ''Renta'' docs3 None False True =
             (Inr full, new_reranker None)"
      "length full = length docs3"
      "\<forall>x\<in>set full. content x = doc_content (docs3 ! (original_rank x - 1))"
    by (auto simp: Let_def)
  from full(1) run have "full = ranked3" by simp
  with full h1 h2 show ?thesis by simp
qed

lemma combine_scores_rrf_zero:
  "combine_method r = ''rrf'' \<Longrightarrow> combine_scores r orig 0 = Inl ZeroDivisionError"
  by (simp add: combine_scores_def)

text \<open>
  Claim C5. With the model unavailable, \<open>rerank\<close> is to return the full list, every
  candidate with its fallback \<open>rerank_score\<close> and its \<open>combined_score\<close>. In the mode
  \<open>rrf\<close> of \<open>combine_method\<close> (one of the three that \<open>__init__\<close> names) it does not:
  a candidate that holds no term of the query has the fallback score 0,
  \<open>_combine_scores\<close> computes \<open>1 / rerank_score\<close>, and \<open>rerank\<close> raises
  \<open>ZeroDivisionError\<close>. The same candidate is ranked in the constructor's mode.
\<close>

theorem fallback_rerank_rrf_raises:
  "model r_rrf = None \<and> combine_method r_rrf = ''rrf'' \<and> docs1 \<noteq> [] \<and>
   fallback_score ''renta'' (doc_content (docs1 ! 0)) = 0 \<and>
   rerank r_rrf (\<lambda>s. 0) ''renta'' docs1 None False True = (Inl ZeroDivisionError, r_rrf) \<and>
   rerank (new_reranker None) (\<lambda>s. 0) ''renta'' docs1 None False True =
     (Inr [\<lparr>chunk_id = PStr ''c2'', content = ''plazo anual'', metadata = [],
            original_score = 1 / 2, rerank_score = 0, combined_score = 3 / 20,
            original_rank = 1, new_rank = 1\<rparr>], new_reranker None)"
  by (simp add: r_rrf_def new_reranker_def rerank_def fallback_rerank_def docs1_def
      make_result_def combine_scores_def fallback_score_def py_split_def py_lower_def
      lower_char_def is_space_def sort_desc_def assign_new_rank_def Let_def)

section \<open>Properties of rank fusion\<close>

subsection \<open>The two dicts of a scan\<close>

lemma accumulate_scores:
  "map_of (fst (accumulate c s r st)) =
     (map_of (fst st))(c \<mapsto> (case map_of (fst st) c of Some old \<Rightarrow> old + s | None \<Rightarrow> s))"
  by (auto simp: accumulate_def update_conv' split: option.splits)

lemma accumulate_results:
  "map_of (snd (accumulate c s r st)) =
     (if map_of (fst st) c = None then (map_of (snd st))(c \<mapsto> r) else map_of (snd st))"
  by (auto simp: accumulate_def update_conv' split: option.splits)

lemma accumulate_distinct:
  "distinct (map fst (fst st)) \<Longrightarrow> distinct (map fst (fst (accumulate c s r st)))"
  by (auto simp: accumulate_def distinct_update split: option.splits)

lemma scan_items_Cons:
  "scan_items ((c, s, r) # items) st = scan_items items (accumulate c s r st)"
  by (simp add: scan_items_def)

lemma scan_items_Nil [simp]: "scan_items [] st = st"
  by (simp add: scan_items_def)

lemma contribution_Cons:
  "contribution cid ((c, s, r) # items) = (if c = cid then s else 0) + contribution cid items"
  by (simp add: contribution_def)

lemma contribution_Nil [simp]: "contribution cid [] = 0"
  by (simp add: contribution_def)

lemma scan_items_scores:
  "map_of (fst (scan_items items st)) cid =
     (if map_of (fst st) cid = None \<and> cid \<notin> fst ` set items then None
      else Some ((case map_of (fst st) cid of None \<Rightarrow> 0 | Some v \<Rightarrow> v) + contribution cid items))"
proof (induction items arbitrary: st)
  case Nil
  then show ?case by (auto split: option.splits)
next
  case (Cons a items)
  obtain c s r where a: "a = (c, s, r)" by (cases a)
  show ?case
    unfolding a scan_items_Cons Cons.IH contribution_Cons accumulate_scores
    by (auto split: option.splits)
qed

lemma scan_items_results:
  assumes "dom (map_of (fst st)) = dom (map_of (snd st))"
  shows "dom (map_of (fst (scan_items items st))) = dom (map_of (snd (scan_items items st))) \<and>
         map_of (snd (scan_items items st)) cid =
           (case map_of (snd st) cid of
              Some r \<Rightarrow> Some r
            | None \<Rightarrow> map_of (map (\<lambda>(c, s, r). (c, r)) items) cid)"
  using assms
proof (induction items arbitrary: st)
  case Nil
  then show ?case by (auto split: option.splits)
next
  case (Cons a items)
  obtain c s r where a: "a = (c, s, r)" by (cases a)
  have inv: "dom (map_of (fst (accumulate c s r st))) = dom (map_of (snd (accumulate c s r st)))"
    using Cons.prems unfolding accumulate_scores accumulate_results by auto
  have none: "map_of (fst st) c = None \<longleftrightarrow> map_of (snd st) c = None"
    using Cons.prems by (metis domIff)
  show ?case
    unfolding a scan_items_Cons
    using Cons.IH [OF inv] none
    by (auto simp: accumulate_results split: option.splits)
qed

lemma scan_items_distinct:
  "distinct (map fst (fst st)) \<Longrightarrow> distinct (map fst (fst (scan_items items st)))"
proof (induction items arbitrary: st)
  case Nil
  then show ?case by simp
next
  case (Cons a items)
  obtain c s r where a: "a = (c, s, r)" by (cases a)
  show ?case unfolding a scan_items_Cons
    using Cons.IH [OF accumulate_distinct [OF Cons.prems]] .
qed

lemma map_of_first:
  "map_of (map (\<lambda>x. (key x, x)) xs) c = find (\<lambda>x. key x = c) xs"
  by (induction xs) auto

subsection \<open>Reciprocal rank fusion of the hybrid search engine\<close>

lemma sequence_sum_map_Inr:
  "(\<forall>x\<in>set xs. f x = Inr (g x)) \<Longrightarrow> sequence_sum (map f xs) = Inr (map g xs)"
  by (induction xs) auto

lemma distinct_map_insort_key:
  "distinct (map g (insort_key f x xs)) = (g x \<notin> g ` set xs \<and> distinct (map g xs))"
  by (induction xs) (auto simp: set_insort_key)

lemma distinct_map_sort_desc:
  "distinct (map g (sort_desc f xs)) = distinct (map g xs)"
  unfolding sort_desc_def
  by (induction xs) (auto simp: distinct_map_insort_key)

lemma set_sort_desc [simp]: "set (sort_desc f xs) = set xs"
  by (simp add: sort_desc_def)

lemma length_sort_desc [simp]: "length (sort_desc f xs) = length xs"
  by (simp add: sort_desc_def)

lemma sort_desc_sorted: "sorted_wrt (\<lambda>a b. f b \<le> f a) (sort_desc f xs)"
proof -
  have "sorted (map (\<lambda>x. - f x) (sort_key (\<lambda>x. - f x) xs))" by (rule sorted_sort_key)
  then show ?thesis by (simp add: sort_desc_def sorted_map)
qed

lemma rrf_scan_Inr:
  "rrf_scan k xs st = Inr st' \<Longrightarrow> st' = scan_items (rrf_items k xs) st"
  by (induction xs arbitrary: st) (auto simp: rrf_items_def scan_items_def split: if_splits)

lemma rrf_scan_total:
  "\<forall>r\<in>set xs. k + sr_rank r \<noteq> 0 \<Longrightarrow> rrf_scan k xs st = Inr (scan_items (rrf_items k xs) st)"
  by (induction xs arbitrary: st) (auto simp: rrf_items_def scan_items_def)

lemma fused_list_eq:
  assumes "dom (map_of (fst st)) = dom (map_of (snd st))"
  shows "fused_list st =
     Inr (map (\<lambda>(i, (cid, score)).
                 (the (map_of (snd st) cid))\<lparr>sr_score := score, sr_source := ''hybrid'', sr_rank := int i + 1\<rparr>)
              (enumerate 0 (sort_desc snd (fst st))))"
  unfolding fused_list_def
proof (rule sequence_sum_map_Inr, rule ballI)
  fix x assume x: "x \<in> set (enumerate 0 (sort_desc snd (fst st)))"
  obtain i cid score where xe: "x = (i, (cid, score))" by (cases x) auto
  from x xe have "(cid, score) \<in> set (sort_desc snd (fst st))"
    by (auto simp: enumerate_eq_zip dest: set_zip_rightD)
  then have "(cid, score) \<in> set (fst st)" by simp
  then have "cid \<in> dom (map_of (fst st))"
    by (metis domIff map_of_eq_None_iff fst_conv image_eqI)
  with assms obtain res where "map_of (snd st) cid = Some res" by auto
  then show "(case x of (i, (cid, score)) \<Rightarrow>
               (case dict_get (snd st) cid of Inl e \<Rightarrow> Inl e
                | Inr result \<Rightarrow> Inr (result\<lparr>sr_score := score, sr_source := ''hybrid'', sr_rank := int i + 1\<rparr>))) =
             Inr (case x of (i, (cid, score)) \<Rightarrow>
               (the (map_of (snd st) cid))\<lparr>sr_score := score, sr_source := ''hybrid'', sr_rank := int i + 1\<rparr>)"
    by (simp add: xe dict_get_def)
qed


lemma stored_result_id:
  assumes "map_of (snd (scan_items (rrf_items k xs) ([], []))) c = Some res"
  shows "find (\<lambda>x. sr_chunk_id x = c) xs = Some res" and "sr_chunk_id res = c"
proof -
  have "map (\<lambda>(c, s, r). (c, r)) (rrf_items k xs) = map (\<lambda>x. (sr_chunk_id x, x)) xs"
    by (simp add: rrf_items_def)
  with scan_items_results [of "([], [])" "rrf_items k xs" c] assms
  show "find (\<lambda>x. sr_chunk_id x = c) xs = Some res"
    by (simp add: map_of_first)
  then show "sr_chunk_id res = c"
    by (auto simp: find_Some_iff)
qed

lemma rrf_first_occurrence:
  assumes "reciprocal_rank_fusion result_lists k = Inr out" and "r \<in> set out"
  shows "\<exists>first. find (\<lambda>x. sr_chunk_id x = sr_chunk_id r) (concat result_lists) = Some first \<and>
           r = first\<lparr>sr_score := sr_score r, sr_source := ''hybrid'', sr_rank := sr_rank r\<rparr> \<and>
           sr_content r = sr_content first \<and> sr_metadata r = sr_metadata first \<and>
           sr_match_details r = sr_match_details first"
proof -
  let ?xs = "concat result_lists"
  from assms(1) obtain st where sc: "rrf_scan k ?xs ([], []) = Inr st" and fl: "fused_list st = Inr out"
    by (auto simp: reciprocal_rank_fusion_def split: sum.splits)
  have st: "st = scan_items (rrf_items k ?xs) ([], [])" using rrf_scan_Inr [OF sc] .
  have dom: "dom (map_of (fst st)) = dom (map_of (snd st))"
    unfolding st using scan_items_results [of "([], [])" "rrf_items k ?xs"] by simp
  from fl fused_list_eq [OF dom] assms(2)
  obtain i cid score where
    ics: "(i, (cid, score)) \<in> set (enumerate 0 (sort_desc snd (fst st)))" and
    r: "r = (the (map_of (snd st) cid))\<lparr>sr_score := score, sr_source := ''hybrid'', sr_rank := int i + 1\<rparr>"
    by auto
  from ics have "(cid, score) \<in> set (fst st)"
    by (auto simp: enumerate_eq_zip dest: set_zip_rightD)
  then have "cid \<in> dom (map_of (fst st))"
    by (metis domIff map_of_eq_None_iff fst_conv image_eqI)
  with dom obtain res where res: "map_of (snd st) cid = Some res" by auto
  note sr = stored_result_id [OF res [unfolded st]]
  have "sr_chunk_id r = cid" using r res sr(2) by simp
  with sr(1) r res show ?thesis by simp
qed


lemma map_enumerate_snd: "map (\<lambda>(i, x). h x) (enumerate n xs) = map h xs"
  by (induction xs arbitrary: n) simp_all

lemma stored_ids:
  assumes "(cid, score) \<in> set (fst (scan_items (rrf_items k xs) ([], [])))"
  shows "\<exists>res. map_of (snd (scan_items (rrf_items k xs) ([], []))) cid = Some res \<and> sr_chunk_id res = cid"
proof -
  let ?st = "scan_items (rrf_items k xs) ([], [])"
  have dom: "dom (map_of (fst ?st)) = dom (map_of (snd ?st))"
    using scan_items_results [of "([], [])" "rrf_items k xs"] by simp
  from assms have "cid \<in> dom (map_of (fst ?st))"
    by (metis domIff map_of_eq_None_iff fst_conv image_eqI)
  with dom obtain res where res: "map_of (snd ?st) cid = Some res" by auto
  with stored_result_id(2) [OF res] show ?thesis by simp
qed

lemma rrf_output:
  assumes "reciprocal_rank_fusion result_lists k = Inr out"
  shows "distinct (map sr_chunk_id out)"
    and "set (map sr_chunk_id out) = sr_chunk_id ` set (concat result_lists)"
    and "\<forall>r\<in>set out. sr_score r = contribution (sr_chunk_id r) (rrf_items k (concat result_lists))"
    and "sorted_wrt (\<lambda>a b. sr_score b \<le> sr_score a) out"
proof -
  let ?xs = "concat result_lists"
  from assms obtain st where sc: "rrf_scan k ?xs ([], []) = Inr st" and fl: "fused_list st = Inr out"
    by (auto simp: reciprocal_rank_fusion_def split: sum.splits)
  have st: "st = scan_items (rrf_items k ?xs) ([], [])" using rrf_scan_Inr [OF sc] .
  have dom: "dom (map_of (fst st)) = dom (map_of (snd st))"
    unfolding st using scan_items_results [of "([], [])" "rrf_items k ?xs"] by simp
  have dist: "distinct (map fst (fst st))"
    unfolding st by (rule scan_items_distinct) simp
  let ?S = "sort_desc snd (fst st)"
  let ?mk = "\<lambda>(i, (cid, score)).
        (the (map_of (snd st) cid))\<lparr>sr_score := score, sr_source := ''hybrid'', sr_rank := int i + 1\<rparr>"
  have out: "out = map ?mk (enumerate 0 ?S)"
    using fl fused_list_eq [OF dom] by simp
  have scores: "map sr_score out = map snd ?S"
  proof -
    have "map sr_score out = map (\<lambda>(i, x). snd x) (enumerate 0 ?S)"
      unfolding out by (auto simp: case_prod_beta)
    then show ?thesis by (simp add: map_enumerate_snd)
  qed
  have ids: "map sr_chunk_id out = map fst ?S"
  proof -
    have "sr_chunk_id (?mk p) = fst (snd p)" if "p \<in> set (enumerate 0 ?S)" for p
    proof -
      obtain i cid score where p: "p = (i, (cid, score))" by (cases p) auto
      with that have "(cid, score) \<in> set ?S"
        by (auto simp: enumerate_eq_zip dest: set_zip_rightD)
      then have "(cid, score) \<in> set (fst st)" by simp
      from stored_ids [OF this [unfolded st]] show ?thesis
        by (auto simp: p st)
    qed
    then have "map sr_chunk_id out = map (\<lambda>(i, x). fst x) (enumerate 0 ?S)"
      unfolding out by (auto simp: case_prod_beta)
    then show ?thesis by (simp add: map_enumerate_snd)
  qed
  show "distinct (map sr_chunk_id out)"
    unfolding ids using dist by (simp add: distinct_map_sort_desc)
  have keys: "fst ` set (fst st) = sr_chunk_id ` set ?xs"
  proof -
    have "fst ` set (fst st) = dom (map_of (fst st))" by (simp add: dom_map_of_conv_image_fst)
    also have "\<dots> = fst ` set (rrf_items k ?xs)"
      unfolding st using scan_items_scores [where st = "([], [])" and items = "rrf_items k ?xs"]
      by (auto simp: dom_def)
    also have "\<dots> = sr_chunk_id ` set ?xs" by (force simp: rrf_items_def)
    finally show ?thesis .
  qed
  show "set (map sr_chunk_id out) = sr_chunk_id ` set ?xs"
    unfolding ids using keys by simp
  show "\<forall>r\<in>set out. sr_score r = contribution (sr_chunk_id r) (rrf_items k ?xs)"
  proof
    fix r assume "r \<in> set out"
    then obtain i where i: "i < length out" "r = out ! i" by (auto simp: in_set_conv_nth)
    have len: "length out = length ?S" using scores by (metis length_map)
    from i len have e: "sr_score r = snd (?S ! i)" "sr_chunk_id r = fst (?S ! i)"
      using scores ids by (metis nth_map)+
    have "?S ! i \<in> set (fst st)" using i len by (metis nth_mem set_sort_desc)
    then have "map_of (fst st) (fst (?S ! i)) = Some (snd (?S ! i))"
      using dist by simp
    with scan_items_scores [where st = "([], [])" and items = "rrf_items k ?xs" and cid = "fst (?S ! i)"]
    show "sr_score r = contribution (sr_chunk_id r) (rrf_items k ?xs)"
      unfolding e st by (auto split: if_splits)
  qed
  have "sorted_wrt (\<lambda>a b. snd b \<le> snd a) ?S" by (rule sort_desc_sorted)
  then have "sorted_wrt (\<lambda>a b. b \<le> a) (map snd ?S)" by (simp add: sorted_wrt_map)
  then have "sorted_wrt (\<lambda>a b. b \<le> a) (map sr_score out)" by (simp add: scores)
  then show "sorted_wrt (\<lambda>a b. sr_score b \<le> sr_score a) out" by (simp add: sorted_wrt_map)
qed

subsection \<open>Reciprocal rank fusion of the vector store\<close>

lemma vs_rrf_scan_Inr:
  "vs_rrf_scan k xs st = Inr st' \<Longrightarrow> st' = scan_items (vs_items k xs) st"
proof (induction xs arbitrary: st)
  case Nil
  then show ?case by (simp add: vs_items_def)
next
  case (Cons a xs)
  obtain rank r where a: "a = (rank, r)" by (cases a)
  let ?st = "accumulate (vr_chunk_id r) (1 / real_of_int (k + int rank + 1)) r st"
  from Cons.prems have "vs_rrf_scan k xs ?st = Inr st'"
    by (simp add: a split: if_splits)
  from Cons.IH [OF this] show ?case
    by (simp add: a vs_items_def scan_items_def)
qed

lemma vs_rrf_scan_total:
  "\<forall>p\<in>set xs. k + int (fst p) + 1 \<noteq> 0 \<Longrightarrow>
   vs_rrf_scan k xs st = Inr (scan_items (vs_items k xs) st)"
proof (induction xs arbitrary: st)
  case Nil
  then show ?case by (simp add: vs_items_def)
next
  case (Cons a xs)
  obtain rank r where a: "a = (rank, r)" by (cases a)
  let ?st = "accumulate (vr_chunk_id r) (1 / real_of_int (k + int rank + 1)) r st"
  from Cons.prems have nz: "k + int rank + 1 \<noteq> 0" and rest: "\<forall>p\<in>set xs. k + int (fst p) + 1 \<noteq> 0"
    by (simp_all add: a)
  from Cons.IH [OF rest, of ?st] nz show ?case
    by (simp add: a vs_items_def scan_items_def)
qed

lemma vs_fused_list_eq:
  assumes "dom (map_of (fst st)) = dom (map_of (snd st))"
  shows "vs_fused_list st =
     Inr (sort_desc vr_score
            (map (\<lambda>(cid, s). (the (map_of (snd st) cid))\<lparr>vr_rrf_score := Some s, vr_score := s\<rparr>)
                 (fst st)))"
proof -
  have "sequence_sum
          (map (\<lambda>(cid, rrf_score).
                  case dict_get (snd st) cid of
                    Inl e \<Rightarrow> Inl e
                  | Inr result \<Rightarrow> Inr (result\<lparr>vr_rrf_score := Some rrf_score, vr_score := rrf_score\<rparr>))
               (fst st)) =
        Inr (map (\<lambda>(cid, s). (the (map_of (snd st) cid))\<lparr>vr_rrf_score := Some s, vr_score := s\<rparr>)
                 (fst st))"
  proof (rule sequence_sum_map_Inr, rule ballI)
    fix x assume x: "x \<in> set (fst st)"
    obtain cid score where xe: "x = (cid, score)" by (cases x)
    from x xe have "cid \<in> dom (map_of (fst st))"
      by (metis domIff map_of_eq_None_iff fst_conv image_eqI)
    with assms obtain res where "map_of (snd st) cid = Some res" by auto
    then show "(case x of (cid, rrf_score) \<Rightarrow>
                 (case dict_get (snd st) cid of Inl e \<Rightarrow> Inl e
                  | Inr result \<Rightarrow> Inr (result\<lparr>vr_rrf_score := Some rrf_score, vr_score := rrf_score\<rparr>))) =
               Inr (case x of (cid, s) \<Rightarrow>
                 (the (map_of (snd st) cid))\<lparr>vr_rrf_score := Some s, vr_score := s\<rparr>)"
      by (simp add: xe dict_get_def)
  qed
  then show ?thesis by (simp add: vs_fused_list_def)
qed

lemma vs_stored_result_id:
  assumes "map_of (snd (scan_items (vs_items k xs) ([], []))) c = Some res"
  shows "find (\<lambda>x. vr_chunk_id x = c) (map snd xs) = Some res" and "vr_chunk_id res = c"
proof -
  have eq: "map (\<lambda>(c, s, r). (c, r)) (vs_items k xs) = map (\<lambda>x. (vr_chunk_id x, x)) (map snd xs)"
    by (auto simp: vs_items_def)
  have "map_of (map (\<lambda>(c, s, r). (c, r)) (vs_items k xs)) c =
        find (\<lambda>x. vr_chunk_id x = c) (map snd xs)"
    unfolding eq by (rule map_of_first)
  moreover have "map_of (snd (scan_items (vs_items k xs) ([], []))) c =
        map_of (map (\<lambda>(c, s, r). (c, r)) (vs_items k xs)) c"
    using scan_items_results [of "([], [])" "vs_items k xs" c] by simp
  ultimately show "find (\<lambda>x. vr_chunk_id x = c) (map snd xs) = Some res"
    using assms by simp
  then show "vr_chunk_id res = c"
    by (auto simp: find_Some_iff)
qed

lemma vs_stored_ids:
  assumes "(cid, score) \<in> set (fst (scan_items (vs_items k xs) ([], [])))"
  shows "\<exists>res. map_of (snd (scan_items (vs_items k xs) ([], []))) cid = Some res \<and> vr_chunk_id res = cid"
proof -
  let ?st = "scan_items (vs_items k xs) ([], [])"
  have dom: "dom (map_of (fst ?st)) = dom (map_of (snd ?st))"
    using scan_items_results [of "([], [])" "vs_items k xs"] by simp
  from assms have "cid \<in> dom (map_of (fst ?st))"
    by (metis domIff map_of_eq_None_iff fst_conv image_eqI)
  with dom obtain res where res: "map_of (snd ?st) cid = Some res" by auto
  with vs_stored_result_id(2) [OF res] show ?thesis by simp
qed

lemma concat_enumerate_snd: "map snd (concat (map (enumerate 0) ls)) = concat ls"
  by (induction ls) simp_all

lemma vs_rrf_first_occurrence:
  assumes "vs_reciprocal_rank_fusion result_lists k = Inr out" and "r \<in> set out"
  shows "\<exists>first. find (\<lambda>x. vr_chunk_id x = vr_chunk_id r) (concat result_lists) = Some first \<and>
           r = first\<lparr>vr_rrf_score := vr_rrf_score r, vr_score := vr_score r\<rparr>"
proof -
  let ?xs = "concat (map (enumerate 0) result_lists)"
  from assms(1) obtain st where sc: "vs_rrf_scan k ?xs ([], []) = Inr st" and fl: "vs_fused_list st = Inr out"
    by (auto simp: vs_reciprocal_rank_fusion_def split: sum.splits)
  have st: "st = scan_items (vs_items k ?xs) ([], [])" using vs_rrf_scan_Inr [OF sc] .
  have dom: "dom (map_of (fst st)) = dom (map_of (snd st))"
    unfolding st using scan_items_results [of "([], [])" "vs_items k ?xs"] by simp
  from fl vs_fused_list_eq [OF dom] assms(2)
  obtain cid score where
    cs: "(cid, score) \<in> set (fst st)" and
    r: "r = (the (map_of (snd st) cid))\<lparr>vr_rrf_score := Some score, vr_score := score\<rparr>"
    by auto
  from cs have "cid \<in> dom (map_of (fst st))"
    by (metis domIff map_of_eq_None_iff fst_conv image_eqI)
  with dom obtain res where res: "map_of (snd st) cid = Some res" by auto
  note sr = vs_stored_result_id [OF res [unfolded st]]
  have "vr_chunk_id r = cid" using r res sr(2) by simp
  with sr(1) r res show ?thesis by (simp add: concat_enumerate_snd)
qed

lemma vs_rrf_output:
  assumes "vs_reciprocal_rank_fusion result_lists k = Inr out"
  shows "distinct (map vr_chunk_id out)"
    and "set (map vr_chunk_id out) = vr_chunk_id ` set (concat result_lists)"
    and "\<forall>r\<in>set out. vr_score r =
           contribution (vr_chunk_id r) (vs_items k (concat (map (enumerate 0) result_lists)))"
    and "sorted_wrt (\<lambda>a b. vr_score b \<le> vr_score a) out"
proof -
  let ?xs = "concat (map (enumerate 0) result_lists)"
  from assms obtain st where sc: "vs_rrf_scan k ?xs ([], []) = Inr st" and fl: "vs_fused_list st = Inr out"
    by (auto simp: vs_reciprocal_rank_fusion_def split: sum.splits)
  have st: "st = scan_items (vs_items k ?xs) ([], [])" using vs_rrf_scan_Inr [OF sc] .
  have dom: "dom (map_of (fst st)) = dom (map_of (snd st))"
    unfolding st using scan_items_results [of "([], [])" "vs_items k ?xs"] by simp
  have dist: "distinct (map fst (fst st))"
    unfolding st by (rule scan_items_distinct) simp
  let ?mk = "\<lambda>(cid, s). (the (map_of (snd st) cid))\<lparr>vr_rrf_score := Some s, vr_score := s\<rparr>"
  let ?U = "map ?mk (fst st)"
  have out: "out = sort_desc vr_score ?U"
    using fl vs_fused_list_eq [OF dom] by simp
  have idU: "map vr_chunk_id ?U = map fst (fst st)"
  proof -
    have "vr_chunk_id (?mk p) = fst p" if "p \<in> set (fst st)" for p
    proof -
      obtain cid score where p: "p = (cid, score)" by (cases p)
      from vs_stored_ids [OF that [unfolded st p]] show ?thesis
        by (auto simp: p st)
    qed
    then show ?thesis by simp
  qed
  show "distinct (map vr_chunk_id out)"
    unfolding out by (simp add: distinct_map_sort_desc idU dist del: map_map)
  have keys: "fst ` set (fst st) = vr_chunk_id ` set (concat result_lists)"
  proof -
    have "fst ` set (fst st) = dom (map_of (fst st))" by (simp add: dom_map_of_conv_image_fst)
    also have "\<dots> = fst ` set (vs_items k ?xs)"
      unfolding st using scan_items_scores [where st = "([], [])" and items = "vs_items k ?xs"]
      by (auto simp: dom_def)
    also have "\<dots> = vr_chunk_id ` snd ` set ?xs" by (force simp: vs_items_def)
    also have "\<dots> = vr_chunk_id ` set (map snd ?xs)" by simp
    finally show ?thesis by (simp only: concat_enumerate_snd)
  qed
  have "set (map vr_chunk_id out) = set (map vr_chunk_id ?U)"
    unfolding out by (simp add: image_image)
  then show "set (map vr_chunk_id out) = vr_chunk_id ` set (concat result_lists)"
    unfolding idU using keys by simp
  show "\<forall>r\<in>set out. vr_score r = contribution (vr_chunk_id r) (vs_items k ?xs)"
  proof
    fix r assume "r \<in> set out"
    then have "r \<in> set ?U" unfolding out by simp
    then obtain cid score where cs: "(cid, score) \<in> set (fst st)" and r: "r = ?mk (cid, score)"
      by auto
    from vs_stored_ids [OF cs [unfolded st]] r have id: "vr_chunk_id r = cid" by (auto simp: st)
    have sc: "vr_score r = score" using r by simp
    have "map_of (fst st) cid = Some score" using cs dist by simp
    with scan_items_scores [where st = "([], [])" and items = "vs_items k ?xs" and cid = cid]
    show "vr_score r = contribution (vr_chunk_id r) (vs_items k ?xs)"
      unfolding id sc st by (auto split: if_splits)
  qed
  show "sorted_wrt (\<lambda>a b. vr_score b \<le> vr_score a) out"
    unfolding out by (rule sort_desc_sorted)
qed

subsection \<open>Fused scores are sums of reciprocal ranks\<close>

lemma contribution_append:
  "contribution c (xs @ ys) = contribution c xs + contribution c ys"
  by (simp add: contribution_def)

lemma sum_list_filter_if:
  fixes f :: "'a \<Rightarrow> real"
  shows "sum_list (map f (filter P xs)) = sum_list (map (\<lambda>x. if P x then f x else 0) xs)"
  by (induction xs) simp_all

lemma positional_sum:
  fixes g :: "nat \<Rightarrow> real"
  assumes "distinct ids"
  shows "sum_list (map (\<lambda>(i, c'). if c' = c then g i else 0) (enumerate n ids)) =
         (if c \<in> set ids then g (n + length (takeWhile (\<lambda>y. y \<noteq> c) ids)) else 0)"
  using assms
proof (induction ids arbitrary: n)
  case Nil
  then show ?case by simp
next
  case (Cons a ids)
  show ?case
  proof (cases "a = c")
    case True
    then have "c \<notin> set ids" using Cons.prems by simp
    with Cons.IH [of "Suc n"] Cons.prems True show ?thesis by simp
  next
    case False
    with Cons.IH [of "Suc n"] Cons.prems show ?thesis by simp
  qed
qed

lemma occurrence_sum:
  fixes g :: "nat \<Rightarrow> real"
  shows "sum_list (map (\<lambda>(i, c'). if c' = c then g i else 0) (enumerate 0 ids)) =
         sum_list (map g (occurrences c ids))"
proof -
  have "map (\<lambda>(i, c'). if c' = c then g i else 0) (enumerate 0 ids) =
        map (\<lambda>i. if ids ! i = c then g i else 0) [0..<length ids]"
    by (rule nth_equalityI) (simp_all add: nth_enumerate_eq)
  then show ?thesis by (simp add: occurrences_def sum_list_filter_if)
qed

lemma occurrences_distinct:
  fixes g :: "nat \<Rightarrow> real"
  assumes "distinct ids"
  shows "sum_list (map g (occurrences c ids)) =
         (if c \<in> set ids then g (length (takeWhile (\<lambda>y. y \<noteq> c) ids)) else 0)"
  using positional_sum [OF assms, of c g 0] by (simp add: occurrence_sum)

lemma occurrence_score_distinct:
  assumes "\<forall>ids\<in>set id_lists. distinct ids"
  shows "rrf_occurrence_score k x id_lists = rrf_spec_score k x id_lists"
  using assms
proof (induction id_lists)
  case Nil
  then show ?case by (simp add: rrf_occurrence_score_def rrf_spec_score_def)
next
  case (Cons ids id_lists)
  have "distinct ids" using Cons.prems by simp
  from occurrences_distinct [OF this, of "\<lambda>i. 1 / real_of_int (k + int (Suc i))" x]
  have "sum_list (map (\<lambda>i. 1 / real_of_int (k + int (Suc i))) (occurrences x ids)) =
        (if x \<in> set ids then 1 / real_of_int (k + int (rank_in x ids)) else 0)"
    by (simp add: rank_in_def)
  moreover have "rrf_occurrence_score k x id_lists = rrf_spec_score k x id_lists"
    using Cons by simp
  ultimately show ?case
    by (simp add: rrf_occurrence_score_def rrf_spec_score_def)
qed

lemma vs_contribution_list:
  "contribution c (vs_items k (enumerate 0 l)) =
     sum_list (map (\<lambda>i. 1 / real_of_int (k + int (Suc i))) (occurrences c (map vr_chunk_id l)))"
proof -
  have "map (\<lambda>(c', s, r). if c' = c then s else 0) (vs_items k (enumerate 0 l)) =
        map (\<lambda>(i, c'). if c' = c then 1 / real_of_int (k + int (Suc i)) else 0)
            (enumerate 0 (map vr_chunk_id l))"
    by (rule nth_equalityI) (simp_all add: vs_items_def nth_enumerate_eq add.assoc add.commute)
  then show ?thesis
    unfolding contribution_def by (simp only: occurrence_sum)
qed

lemma vs_contribution_lists:
  "contribution c (vs_items k (concat (map (enumerate 0) ls))) =
     rrf_occurrence_score k c (map (map vr_chunk_id) ls)"
proof (induction ls)
  case Nil
  then show ?case by (simp add: vs_items_def rrf_occurrence_score_def contribution_def)
next
  case (Cons l ls)
  have "vs_items k (concat (map (enumerate 0) (l # ls))) =
        vs_items k (enumerate 0 l) @ vs_items k (concat (map (enumerate 0) ls))"
    by (simp add: vs_items_def)
  then show ?case
    using Cons vs_contribution_list [of c k l]
    by (simp add: contribution_append rrf_occurrence_score_def)
qed

lemma rrf_contribution_list:
  assumes "ranked_list l"
  shows "contribution c (rrf_items k l) =
     sum_list (map (\<lambda>i. 1 / real_of_int (k + int (Suc i))) (occurrences c (map sr_chunk_id l)))"
proof -
  have rk: "sr_rank (l ! i) = int i + 1" if "i < length l" for i
  proof -
    have "map sr_rank l ! i = map (\<lambda>i. int i + 1) [0..<length l] ! i"
      using assms by (simp add: ranked_list_def)
    then show ?thesis using that by simp
  qed
  have "map (\<lambda>(c', s, r). if c' = c then s else 0) (rrf_items k l) =
        map (\<lambda>(i, c'). if c' = c then 1 / real_of_int (k + int (Suc i)) else 0)
            (enumerate 0 (map sr_chunk_id l))"
    by (rule nth_equalityI) (simp_all add: rrf_items_def nth_enumerate_eq rk add.commute)
  then show ?thesis
    unfolding contribution_def by (simp only: occurrence_sum)
qed

lemma rrf_contribution_lists:
  assumes "\<forall>l\<in>set ls. ranked_list l"
  shows "contribution c (rrf_items k (concat ls)) =
         rrf_occurrence_score k c (map (map sr_chunk_id) ls)"
  using assms
proof (induction ls)
  case Nil
  then show ?case by (simp add: rrf_items_def rrf_occurrence_score_def contribution_def)
next
  case (Cons l ls)
  have "rrf_items k (concat (l # ls)) = rrf_items k l @ rrf_items k (concat ls)"
    by (simp add: rrf_items_def)
  then show ?case
    using Cons rrf_contribution_list [of l c k]
    by (simp add: contribution_append rrf_occurrence_score_def)
qed

lemma ranked_list_ranks: "ranked_list l \<Longrightarrow> r \<in> set l \<Longrightarrow> 1 \<le> sr_rank r"
proof -
  assume rl: "ranked_list l" and r: "r \<in> set l"
  from r obtain i where i: "i < length l" "r = l ! i" by (auto simp: in_set_conv_nth)
  have "map sr_rank l ! i = map (\<lambda>i. int i + 1) [0..<length l] ! i"
    using rl by (simp add: ranked_list_def)
  then show ?thesis using i by simp
qed

text \<open>
  Claim C2, as amended. Reciprocal rank fusion, in the hybrid search engine and in the
  vector store: for every collection of input lists (in the engine, lists whose results
  carry their 1-based position as \<open>rank\<close>) and a constant \<open>k \<ge> 0\<close>, fusion returns one
  result per id; the fused score of an id is the sum, over every occurrence of the id in
  the input lists, of \<open>1 / (k + rank)\<close> with \<open>rank\<close> the 1-based position of the
  occurrence in its list; the results are in descending order of that score; and the
  constant defaults to 60. When no list holds an id twice, that sum is the sum over the
  lists that contain the id of \<open>1 / (k + rank)\<close>, with \<open>rank\<close> its rank in the list.
\<close>

theorem rrf_sum_of_reciprocal_ranks:
  assumes "0 \<le> k"
      and "\<forall>l\<in>set result_lists. ranked_list l"
  shows "(\<exists>out. reciprocal_rank_fusion result_lists k = Inr out \<and>
            distinct (map sr_chunk_id out) \<and>
            set (map sr_chunk_id out) = sr_chunk_id ` set (concat result_lists) \<and>
            (\<forall>r\<in>set out. sr_score r =
               rrf_occurrence_score k (sr_chunk_id r) (map (map sr_chunk_id) result_lists)) \<and>
            sorted_wrt (\<lambda>a b. sr_score b \<le> sr_score a) out) \<and>
         (\<exists>out. vs_reciprocal_rank_fusion vs_lists k = Inr out \<and>
            distinct (map vr_chunk_id out) \<and>
            set (map vr_chunk_id out) = vr_chunk_id ` set (concat vs_lists) \<and>
            (\<forall>r\<in>set out. vr_score r =
               rrf_occurrence_score k (vr_chunk_id r) (map (map vr_chunk_id) vs_lists)) \<and>
            sorted_wrt (\<lambda>a b. vr_score b \<le> vr_score a) out) \<and>
         ((\<forall>ids\<in>set id_lists. distinct ids) \<longrightarrow>
            rrf_occurrence_score k x id_lists = rrf_spec_score k x id_lists) \<and>
         fuse_results result_lists weights ''rrf'' = reciprocal_rank_fusion result_lists 60"
proof (intro conjI)
  have "\<forall>r\<in>set (concat result_lists). k + sr_rank r \<noteq> 0"
  proof
    fix r assume "r \<in> set (concat result_lists)"
    then obtain l where "l \<in> set result_lists" "r \<in> set l" by auto
    with assms(2) ranked_list_ranks have "1 \<le> sr_rank r" by blast
    with assms(1) show "k + sr_rank r \<noteq> 0" by simp
  qed
  from rrf_scan_total [OF this]
  have sc: "rrf_scan k (concat result_lists) ([], []) =
        Inr (scan_items (rrf_items k (concat result_lists)) ([], []))" .
  let ?st = "scan_items (rrf_items k (concat result_lists)) ([], [])"
  have "dom (map_of (fst ?st)) = dom (map_of (snd ?st))"
    using scan_items_results [of "([], [])" "rrf_items k (concat result_lists)"] by simp
  from fused_list_eq [OF this] sc obtain out where
    out: "reciprocal_rank_fusion result_lists k = Inr out"
    by (simp add: reciprocal_rank_fusion_def)
  note ro = rrf_output [OF out]
  have "\<forall>r\<in>set out. sr_score r =
          rrf_occurrence_score k (sr_chunk_id r) (map (map sr_chunk_id) result_lists)"
    using ro(3) rrf_contribution_lists [OF assms(2)] by simp
  with out ro show "\<exists>out. reciprocal_rank_fusion result_lists k = Inr out \<and>
            distinct (map sr_chunk_id out) \<and>
            set (map sr_chunk_id out) = sr_chunk_id ` set (concat result_lists) \<and>
            (\<forall>r\<in>set out. sr_score r =
               rrf_occurrence_score k (sr_chunk_id r) (map (map sr_chunk_id) result_lists)) \<and>
            sorted_wrt (\<lambda>a b. sr_score b \<le> sr_score a) out"
    by blast
next
  have "\<forall>p\<in>set (concat (map (enumerate 0) vs_lists)). k + int (fst p) + 1 \<noteq> 0"
    using assms(1) by auto
  from vs_rrf_scan_total [OF this]
  have sc: "vs_rrf_scan k (concat (map (enumerate 0) vs_lists)) ([], []) =
        Inr (scan_items (vs_items k (concat (map (enumerate 0) vs_lists))) ([], []))" .
  let ?st = "scan_items (vs_items k (concat (map (enumerate 0) vs_lists))) ([], [])"
  have "dom (map_of (fst ?st)) = dom (map_of (snd ?st))"
    using scan_items_results [of "([], [])" "vs_items k (concat (map (enumerate 0) vs_lists))"] by simp
  from vs_fused_list_eq [OF this] sc obtain out where
    out: "vs_reciprocal_rank_fusion vs_lists k = Inr out"
    by (simp add: vs_reciprocal_rank_fusion_def)
  note ro = vs_rrf_output [OF out]
  have "\<forall>r\<in>set out. vr_score r =
          rrf_occurrence_score k (vr_chunk_id r) (map (map vr_chunk_id) vs_lists)"
    using ro(3) vs_contribution_lists by simp
  with out ro show "\<exists>out. vs_reciprocal_rank_fusion vs_lists k = Inr out \<and>
            distinct (map vr_chunk_id out) \<and>
            set (map vr_chunk_id out) = vr_chunk_id ` set (concat vs_lists) \<and>
            (\<forall>r\<in>set out. vr_score r =
               rrf_occurrence_score k (vr_chunk_id r) (map (map vr_chunk_id) vs_lists)) \<and>
            sorted_wrt (\<lambda>a b. vr_score b \<le> vr_score a) out"
    by blast
next
  show "(\<forall>ids\<in>set id_lists. distinct ids) \<longrightarrow>
          rrf_occurrence_score k x id_lists = rrf_spec_score k x id_lists"
    by (intro impI occurrence_score_distinct)
next
  show "fuse_results result_lists weights ''rrf'' = reciprocal_rank_fusion result_lists 60"
    by (simp add: fuse_results_def)
qed

theorem rrf_sum_of_reciprocal_ranks_witness:
  "(0::int) \<le> 60 \<and> ranked_list hy_vec \<and> ranked_list hy_dup \<and>
   distinct (map sr_chunk_id hy_vec) \<and> distinct (map sr_chunk_id hy_kw) \<and>
   reciprocal_rank_fusion [hy_vec, hy_dup] 60 =
     Inr [(hy_dup ! 0)\<lparr>sr_score := 1 / 61 + 1 / 62, sr_source := ''hybrid'', sr_rank := 1\<rparr>,
          (hy_vec ! 0)\<lparr>sr_score := 1 / 61, sr_source := ''hybrid'', sr_rank := 2\<rparr>,
          (hy_vec ! 1)\<lparr>sr_score := 1 / 62, sr_source := ''hybrid'', sr_rank := 3\<rparr>] \<and>
   vs_reciprocal_rank_fusion [vs_vec, vs_kw] 60 = Inr vs_fused \<and>
   rrf_occurrence_score 60 (PStr ''c1'') (map (map sr_chunk_id) [hy_vec, hy_dup]) = 1 / 61 + 1 / 62 \<and>
   map vr_score vs_fused =
     map (\<lambda>r. rrf_occurrence_score 60 (vr_chunk_id r) [map vr_chunk_id vs_vec, map vr_chunk_id vs_kw])
         vs_fused \<and>
   rrf_occurrence_score 60 (PStr ''b'') [map sr_chunk_id hy_vec, map sr_chunk_id hy_kw] =
     rrf_spec_score 60 (PStr ''b'') [map sr_chunk_id hy_vec, map sr_chunk_id hy_kw] \<and>
   sorted_wrt (\<lambda>a b. vr_score b \<le> vr_score a) vs_fused"
proof -
  have h1: "(0::int) \<le> 60" by simp
  have h2: "\<forall>l\<in>set [hy_vec, hy_dup]. ranked_list l"
    by (simp add: hy_vec_def hy_dup_def ranked_list_def)
  have h3: "\<forall>ids\<in>set [map sr_chunk_id hy_vec, map sr_chunk_id hy_kw]. distinct ids"
    by (simp add: hy_vec_def hy_kw_def)
  have hy_run: "reciprocal_rank_fusion [hy_vec, hy_dup] 60 =
     Inr [(hy_dup ! 0)\<lparr>sr_score := 1 / 61 + 1 / 62, sr_source := ''hybrid'', sr_rank := 1\<rparr>,
          (hy_vec ! 0)\<lparr>sr_score := 1 / 61, sr_source := ''hybrid'', sr_rank := 2\<rparr>,
          (hy_vec ! 1)\<lparr>sr_score := 1 / 62, sr_source := ''hybrid'', sr_rank := 3\<rparr>]"
    by (simp add: reciprocal_rank_fusion_def hy_vec_def hy_dup_def accumulate_def
        fused_list_def dict_get_def sort_desc_def)
  have vs_run: "vs_reciprocal_rank_fusion [vs_vec, vs_kw] 60 = Inr vs_fused"
    by (simp add: vs_reciprocal_rank_fusion_def vs_vec_def vs_kw_def vs_fused_def accumulate_def
        vs_fused_list_def dict_get_def sort_desc_def)
  from rrf_sum_of_reciprocal_ranks [OF h1 h2, of "[vs_vec, vs_kw]"
      "[map sr_chunk_id hy_vec, map sr_chunk_id hy_kw]" "PStr ''b''" None] h3
  have "rrf_occurrence_score 60 (PStr ''c1'') (map (map sr_chunk_id) [hy_vec, hy_dup]) =
          1 / 61 + 1 / 62 \<and>
        (\<forall>r\<in>set vs_fused. vr_score r =
           rrf_occurrence_score 60 (vr_chunk_id r) (map (map vr_chunk_id) [vs_vec, vs_kw])) \<and>
        sorted_wrt (\<lambda>a b. vr_score b \<le> vr_score a) vs_fused \<and>
        rrf_occurrence_score 60 (PStr ''b'') [map sr_chunk_id hy_vec, map sr_chunk_id hy_kw] =
          rrf_spec_score 60 (PStr ''b'') [map sr_chunk_id hy_vec, map sr_chunk_id hy_kw]"
    unfolding hy_run vs_run by (simp add: hy_dup_def)
  then show ?thesis using h1 h2 h3 hy_run vs_run by simp
qed

text \<open>
  Claim C2 as stated fails for a list that holds an id twice. After the chunk \<open>c1\<close> has
  been added twice to an empty store, \<open>search\<close> answers the list \<open>vs_dup\<close>, which holds
  \<open>c1\<close> at ranks 1 and 2. Fusing that one list gives \<open>c1\<close> the score
  \<open>1 / 61 + 1 / 62\<close>, in the store and in the engine, where the sum over the lists that
  contain \<open>c1\<close> of \<open>1 / (60 + rank)\<close> is \<open>1 / 61\<close>.
\<close>

theorem rrf_duplicate_id_counterexample:
  "search env1 (snd (add_chunks env1 (snd (add_chunks env1 store0 [chunk1])) [chunk1]))
      ''renta'' (Some 5) None = vs_dup \<and>
   map vr_chunk_id vs_dup = [PStr ''c1'', PStr ''c1''] \<and>
   map_sum id (map (\<lambda>r. (vr_chunk_id r, vr_score r))) (vs_reciprocal_rank_fusion [vs_dup] 60) =
     Inr [(PStr ''c1'', 1 / 61 + 1 / 62)] \<and>
   ranked_list hy_dup \<and> map sr_chunk_id hy_dup = [PStr ''c1'', PStr ''c1''] \<and>
   map_sum id (map (\<lambda>r. (sr_chunk_id r, sr_score r))) (reciprocal_rank_fusion [hy_dup] 60) =
     Inr [(PStr ''c1'', 1 / 61 + 1 / 62)] \<and>
   rrf_spec_score 60 (PStr ''c1'') [[PStr ''c1'', PStr ''c1'']] = 1 / 61 \<and>
   (1 / 61 + 1 / 62 :: real) \<noteq> 1 / 61"
  by (simp add: add_chunks_def add_to_faiss_def store0_def chunk1_def env1_def
      meta_get_def search_def search_candidates_def search_faiss_def faiss_index_search_def
      filter_match_def top_k_or_def default_search_config_def sort_desc_def py_slice_to_def Let_def
      vs_dup_def hy_dup_def ranked_list_def vs_reciprocal_rank_fusion_def vs_fused_list_def
      reciprocal_rank_fusion_def fused_list_def accumulate_def dict_get_def rrf_spec_score_def
      rank_in_def)

text \<open>
  Claim C10. When the same chunk id occurs more than once in the lists given to
  reciprocal rank fusion, the fused result for the id is the first result with that id
  in scan order (the earlier list wins), with its content, metadata and match details.
  The engine rewrites only \<open>score\<close>, \<open>source\<close> and \<open>rank\<close>; the store writes only
  \<open>score\<close> and \<open>rrf_score\<close>.
\<close>

theorem rrf_keeps_first_occurrence:
  assumes "reciprocal_rank_fusion result_lists k = Inr out" and "r \<in> set out"
      and "vs_reciprocal_rank_fusion vs_lists k' = Inr vs_out" and "v \<in> set vs_out"
  shows "(\<exists>first. find (\<lambda>x. sr_chunk_id x = sr_chunk_id r) (concat result_lists) = Some first \<and>
            r = first\<lparr>sr_score := sr_score r, sr_source := ''hybrid'', sr_rank := sr_rank r\<rparr> \<and>
            sr_content r = sr_content first \<and> sr_metadata r = sr_metadata first \<and>
            sr_match_details r = sr_match_details first) \<and>
         (\<exists>first. find (\<lambda>x. vr_chunk_id x = vr_chunk_id v) (concat vs_lists) = Some first \<and>
            v = first\<lparr>vr_rrf_score := vr_rrf_score v, vr_score := vr_score v\<rparr> \<and>
            vr_content v = vr_content first \<and> vr_metadata v = vr_metadata first \<and>
            vr_match_count v = vr_match_count first \<and> vr_rank v = vr_rank first)"
proof
  show "\<exists>first. find (\<lambda>x. sr_chunk_id x = sr_chunk_id r) (concat result_lists) = Some first \<and>
            r = first\<lparr>sr_score := sr_score r, sr_source := ''hybrid'', sr_rank := sr_rank r\<rparr> \<and>
            sr_content r = sr_content first \<and> sr_metadata r = sr_metadata first \<and>
            sr_match_details r = sr_match_details first"
    using rrf_first_occurrence [OF assms(1) assms(2)] .
  from vs_rrf_first_occurrence [OF assms(3) assms(4)] obtain first where
    f: "find (\<lambda>x. vr_chunk_id x = vr_chunk_id v) (concat vs_lists) = Some first"
       "v = first\<lparr>vr_rrf_score := vr_rrf_score v, vr_score := vr_score v\<rparr>"
    by blast
  from f(2) have "vr_content v = vr_content first \<and> vr_metadata v = vr_metadata first \<and>
            vr_match_count v = vr_match_count first \<and> vr_rank v = vr_rank first"
    by (metis vs_result.select_convs(2,3,5,6) vs_result.surjective vs_result.update_convs(4,7))
  with f show "\<exists>first. find (\<lambda>x. vr_chunk_id x = vr_chunk_id v) (concat vs_lists) = Some first \<and>
            v = first\<lparr>vr_rrf_score := vr_rrf_score v, vr_score := vr_score v\<rparr> \<and>
            vr_content v = vr_content first \<and> vr_metadata v = vr_metadata first \<and>
            vr_match_count v = vr_match_count first \<and> vr_rank v = vr_rank first"
    by blast
qed

theorem rrf_keeps_first_occurrence_witness:
  "reciprocal_rank_fusion [hy_vec, hy_kw] 60 = Inr hy_fused \<and> hy_fused ! 0 \<in> set hy_fused \<and>
   vs_reciprocal_rank_fusion [vs_vec, vs_kw] 60 = Inr vs_fused \<and> vs_fused ! 0 \<in> set vs_fused \<and>
   find (\<lambda>x. sr_chunk_id x = sr_chunk_id (hy_fused ! 0)) (concat [hy_vec, hy_kw]) = Some (hy_vec ! 1) \<and>
   hy_kw ! 0 \<noteq> hy_vec ! 1 \<and> sr_chunk_id (hy_kw ! 0) = sr_chunk_id (hy_vec ! 1) \<and>
   sr_content (hy_fused ! 0) = sr_content (hy_vec ! 1) \<and>
   sr_metadata (hy_fused ! 0) = sr_metadata (hy_vec ! 1) \<and>
   sr_match_details (hy_fused ! 0) = sr_match_details (hy_vec ! 1) \<and>
   find (\<lambda>x. vr_chunk_id x = vr_chunk_id (vs_fused ! 0)) (concat [vs_vec, vs_kw]) = Some (vs_vec ! 1) \<and>
   vr_match_count (vs_fused ! 0) = vr_match_count (vs_vec ! 1) \<and>
   vr_rank (vs_fused ! 0) = vr_rank (vs_vec ! 1)"
proof -
  have hy_run: "reciprocal_rank_fusion [hy_vec, hy_kw] 60 = Inr hy_fused"
    by (simp add: reciprocal_rank_fusion_def hy_vec_def hy_kw_def hy_fused_def accumulate_def
        fused_list_def dict_get_def sort_desc_def)
  have vs_run: "vs_reciprocal_rank_fusion [vs_vec, vs_kw] 60 = Inr vs_fused"
    by (simp add: vs_reciprocal_rank_fusion_def vs_vec_def vs_kw_def vs_fused_def accumulate_def
        vs_fused_list_def dict_get_def sort_desc_def)
  have m1: "hy_fused ! 0 \<in> set hy_fused" and m2: "vs_fused ! 0 \<in> set vs_fused"
    by (simp_all add: hy_fused_def vs_fused_def)
  have f1: "find (\<lambda>x. sr_chunk_id x = sr_chunk_id (hy_fused ! 0)) (concat [hy_vec, hy_kw]) = Some (hy_vec ! 1)"
    by (simp add: hy_fused_def hy_vec_def hy_kw_def)
  have f2: "find (\<lambda>x. vr_chunk_id x = vr_chunk_id (vs_fused ! 0)) (concat [vs_vec, vs_kw]) = Some (vs_vec ! 1)"
    by (simp add: vs_fused_def vs_vec_def vs_kw_def)
  have d: "hy_kw ! 0 \<noteq> hy_vec ! 1" "sr_chunk_id (hy_kw ! 0) = sr_chunk_id (hy_vec ! 1)"
    by (simp_all add: hy_vec_def hy_kw_def)
  from rrf_keeps_first_occurrence [OF hy_run m1 vs_run m2] f1 f2
  have "sr_content (hy_fused ! 0) = sr_content (hy_vec ! 1) \<and>
        sr_metadata (hy_fused ! 0) = sr_metadata (hy_vec ! 1) \<and>
        sr_match_details (hy_fused ! 0) = sr_match_details (hy_vec ! 1) \<and>
        vr_match_count (vs_fused ! 0) = vr_match_count (vs_vec ! 1) \<and>
        vr_rank (vs_fused ! 0) = vr_rank (vs_vec ! 1)"
    by auto
  with hy_run vs_run m1 m2 f1 f2 d show ?thesis by simp
qed

subsection \<open>Weighted fusion\<close>












section \<open>Properties of the keyword search\<close>

lemma tokenize_only_stopwords: "only_stopwords query \<Longrightarrow> tokenize (py_lower query) = []"
  by (auto simp: only_stopwords_def tokenize_def list_all_iff filter_empty_conv)

lemma bm25_no_tokens: "fst (calculate_bm25_score eng [] doc) = 0"
  by (simp add: calculate_bm25_score_def Let_def)

lemma score_documents_no_tokens: "fst (score_documents [] docs eng) = []"
proof (induction docs arbitrary: eng)
  case Nil
  then show ?case by simp
next
  case (Cons doc docs)
  obtain s e where c: "calculate_bm25_score eng [] doc = (s, e)" by (cases "calculate_bm25_score eng [] doc")
  with bm25_no_tokens [of eng doc] have s: "s = 0" by simp
  obtain rest e' where r: "score_documents [] docs e = (rest, e')" by (cases "score_documents [] docs e")
  with Cons.IH [of e] have "rest = []" by simp
  with c s r show ?case by simp
qed

text \<open>
  Claim C9, as amended. For every corpus, filter and \<open>top_k\<close>, a keyword search whose
  query is empty or consists only of stopwords, and that is given no boost keywords,
  returns an empty result list. (The search has no raising path: the model returns a
  list, not an exception.)
\<close>

theorem keyword_search_empty_query:
  assumes "only_stopwords query" and "boost_keywords = None \<or> boost_keywords = Some []"
  shows "fst (engine_keyword_search env eng st query top_k filters boost_keywords) = []"
proof -
  have qt: "tokenize (py_lower query) @
        (case boost_keywords of None \<Rightarrow> [] | Some kws \<Rightarrow> map py_lower kws) = []"
    using assms tokenize_only_stopwords by auto
  let ?docs = "get_all_documents env st filters"
  let ?eng = "update_doc_stats eng ?docs"
  obtain sc e where sd: "score_documents [] ?docs ?eng = (sc, e)"
    by (cases "score_documents [] ?docs ?eng")
  with score_documents_no_tokens [of ?docs ?eng] have "sc = []" by simp
  with sd qt show ?thesis
    by (simp add: engine_keyword_search_def Let_def sort_desc_def py_slice_to_def)
qed

theorem keyword_search_empty_query_witness:
  "only_stopwords ''De la, y EL!'' \<and>
   fst (engine_keyword_search env0 new_engine store3 ''De la, y EL!'' 5 None None) = [] \<and>
   only_stopwords [] \<and>
   fst (engine_keyword_search env0 new_engine store3 [] 5 None (Some [])) = []"
proof -
  have h1: "only_stopwords ''De la, y EL!''" and h2: "only_stopwords []"
    by (simp_all add: only_stopwords_def strip_punctuation_def is_word_char_def is_space_def
        py_split_def stopwords_def py_lower_def lower_char_def)
  from keyword_search_empty_query [OF h1, of None env0 new_engine store3 5 None]
    keyword_search_empty_query [OF h2, of "Some []" env0 new_engine store3 5 None]
  show ?thesis using h1 h2 by simp
qed

text \<open>
  Claim C9 as stated fails when boost keywords are given: they are appended to the
  (empty) token list of the query, and the documents that contain them are returned.
\<close>

theorem keyword_search_boost_counterexample:
  "only_stopwords [] \<and>
   map sr_chunk_id (fst (engine_keyword_search env0 new_engine store3 [] 5 None (Some [''plazo''])))
     = [PStr ''c2'']"
  by (simp add: only_stopwords_def engine_keyword_search_def get_all_documents_def env0_def
      store3_def new_engine_def filter_match_def update_doc_stats_def tokenize_def
      strip_punctuation_def is_word_char_def is_space_def py_split_def stopwords_def py_lower_def
      lower_char_def calculate_bm25_score_def get_idf_def Let_def sort_desc_def py_slice_to_def
      get_matched_terms_def)

section \<open>Properties of the vector store\<close>

lemma zip_maps4:
  "zip (map f xs) (zip (map g xs) (zip (map h xs) (map k xs))) = map (\<lambda>x. (f x, g x, h x, k x)) xs"
  by (induction xs) simp_all

lemma add_chunks_faiss:
  assumes "store_type st = ''faiss''"
  shows "faiss_entries (snd (add_chunks env st chunks)) =
           faiss_entries st @
           map (\<lambda>c. \<lparr>fe_vector = embed env (ch_content c), fe_document = ch_content c,
                      fe_metadata = AList.update ''chunk_id'' (PStr (ch_chunk_id c)) (ch_metadata c)\<rparr>)
               chunks"
    and "store_type (snd (add_chunks env st chunks)) = ''faiss''"
    and "fst (add_chunks env st chunks) = length chunks"
proof -
  have z: "zip (map (embed env) (map ch_content chunks))
             (zip (map ch_content chunks) (zip (map ch_metadata chunks) (map ch_chunk_id chunks))) =
           map (\<lambda>c. (embed env (ch_content c), ch_content c, ch_metadata c, ch_chunk_id c)) chunks"
    using zip_maps4 [of "\<lambda>c. embed env (ch_content c)" chunks ch_content ch_metadata ch_chunk_id]
    by (simp add: comp_def)
  show "faiss_entries (snd (add_chunks env st chunks)) =
           faiss_entries st @
           map (\<lambda>c. \<lparr>fe_vector = embed env (ch_content c), fe_document = ch_content c,
                      fe_metadata = AList.update ''chunk_id'' (PStr (ch_chunk_id c)) (ch_metadata c)\<rparr>)
               chunks"
    using assms unfolding add_chunks_def add_to_faiss_def Let_def z by (simp add: comp_def)
  show "store_type (snd (add_chunks env st chunks)) = ''faiss''"
    using assms by (simp add: add_chunks_def add_to_faiss_def Let_def)
  show "fst (add_chunks env st chunks) = length chunks"
    by (simp add: add_chunks_def Let_def)
qed

lemma meta_get_update: "meta_get (AList.update key v m) key = v"
  by (simp add: meta_get_def update_conv')

text \<open>
  Claim C3, as amended. On the FAISS backend \<open>add_chunks\<close> appends one entry per chunk
  it is given, whatever ids the store already holds, and reports their number: adding
  the same chunk twice leaves two more entries with its id than before.
\<close>

theorem add_chunks_appends:
  assumes "store_type st = ''faiss''"
  shows "fst (add_chunks env st chunks) = length chunks \<and>
         faiss_entries (snd (add_chunks env st chunks)) =
           faiss_entries st @
           map (\<lambda>c. \<lparr>fe_vector = embed env (ch_content c), fe_document = ch_content c,
                      fe_metadata = AList.update ''chunk_id'' (PStr (ch_chunk_id c)) (ch_metadata c)\<rparr>)
               chunks \<and>
         length (entries_with_id (snd (add_chunks env (snd (add_chunks env st [c])) [c])) (ch_chunk_id c)) =
           length (entries_with_id st (ch_chunk_id c)) + 2"
proof -
  let ?st1 = "snd (add_chunks env st [c])"
  note a1 = add_chunks_faiss [OF assms, of env]
  note a2 = add_chunks_faiss [OF a1(2) [of "[c]"], of env "[c]"]
  have "length (entries_with_id (snd (add_chunks env ?st1 [c])) (ch_chunk_id c)) =
        length (entries_with_id st (ch_chunk_id c)) + 2"
    unfolding entries_with_id_def a2(1) a1(1) [of "[c]"]
    by (simp add: meta_get_update)
  with a1(1) [of chunks] a1(3) [of chunks] show ?thesis by simp
qed


theorem add_chunks_appends_witness:
  "store_type store0 = ''faiss'' \<and>
   fst (add_chunks env1 store0 [chunk1]) = 1 \<and>
   length (entries_with_id (snd (add_chunks env1 (snd (add_chunks env1 store0 [chunk1])) [chunk1]))
             (ch_chunk_id chunk1)) = length (entries_with_id store0 (ch_chunk_id chunk1)) + 2"
proof -
  have h: "store_type store0 = ''faiss''" by (simp add: store0_def)
  from add_chunks_appends [OF h, of env1 "[chunk1]" chunk1] h show ?thesis by simp
qed

text \<open>
  Claim C3 as stated fails on the FAISS backend: after adding one chunk twice to an
  empty store there are two entries with its id, and a search returns both.
\<close>

theorem add_chunks_twice_counterexample:
  "length (entries_with_id (snd (add_chunks env1 (snd (add_chunks env1 store0 [chunk1])) [chunk1])) ''c1'') = 2 \<and>
   map vr_chunk_id
     (search env1 (snd (add_chunks env1 (snd (add_chunks env1 store0 [chunk1])) [chunk1]))
        ''renta'' (Some 5) None) = [PStr ''c1'', PStr ''c1'']"
  by (simp add: add_chunks_def add_to_faiss_def store0_def chunk1_def env1_def entries_with_id_def
      meta_get_def search_def search_candidates_def search_faiss_def faiss_index_search_def
      filter_match_def top_k_or_def default_search_config_def sort_desc_def py_slice_to_def Let_def)

lemma search_faiss_eq:
  "search_faiss env st q top_k flt =
     map (\<lambda>(i, (dist, idx)).
            \<lparr>vr_chunk_id = meta_get (fe_metadata (faiss_entries st ! idx)) ''chunk_id'',
             vr_content = fe_document (faiss_entries st ! idx),
             vr_metadata = fe_metadata (faiss_entries st ! idx),
             vr_score = dist, vr_rank = Some (i + 1), vr_match_count = None,
             vr_rrf_score = None, vr_original_score = None, vr_rerank_score = None\<rparr>)
         (filter (\<lambda>(i, (dist, idx)). filter_match flt (fe_metadata (faiss_entries st ! idx)))
            (enumerate 0 (faiss_index_search env st q
               (min (nat (max (top_k * 2) 1)) (length (faiss_entries st))))))"
  by (simp add: search_faiss_def Let_def faiss_index_search_def)

lemma filter_enumerate_snd:
  "map snd (filter (\<lambda>(i, x). P x) (enumerate n xs)) = filter P xs"
  by (induction xs arbitrary: n) simp_all

text \<open>
  Claim C4, as amended. The metadata filter of the FAISS search is an equality
  predicate with AND semantics: every returned entry matches every given key/value
  pair. It is applied to the \<open>k = min(max(2 * top_k, 1), ntotal)\<close> nearest entries that the
  index returns: the results are exactly those of the \<open>k\<close> hits that match, in order, and
  there are at most \<open>k\<close> of them.
\<close>

theorem search_faiss_filters_nearest:
  assumes "k = min (nat (max (top_k * 2) 1)) (length (faiss_entries st))"
      and "flt = Some items"
  shows "map (\<lambda>r. (vr_score r, vr_metadata r)) (search_faiss env st q top_k flt) =
           map (\<lambda>(dist, idx). (dist, fe_metadata (faiss_entries st ! idx)))
               (filter (\<lambda>(dist, idx). filter_match flt (fe_metadata (faiss_entries st ! idx)))
                       (faiss_index_search env st q k)) \<and>
         (\<forall>r\<in>set (search_faiss env st q top_k flt).
            \<forall>(key, v)\<in>set items. meta_get (vr_metadata r) key = v) \<and>
         length (search_faiss env st q top_k flt) \<le> k"
proof -
  let ?hits = "faiss_index_search env st q k"
  let ?P = "\<lambda>(dist, idx). filter_match flt (fe_metadata (faiss_entries st ! idx))"
  let ?F = "filter (\<lambda>(i, h). ?P h) (enumerate 0 ?hits)"
  have eq: "search_faiss env st q top_k flt =
     map (\<lambda>(i, (dist, idx)).
            \<lparr>vr_chunk_id = meta_get (fe_metadata (faiss_entries st ! idx)) ''chunk_id'',
             vr_content = fe_document (faiss_entries st ! idx),
             vr_metadata = fe_metadata (faiss_entries st ! idx),
             vr_score = dist, vr_rank = Some (i + 1), vr_match_count = None,
             vr_rrf_score = None, vr_original_score = None, vr_rerank_score = None\<rparr>) ?F"
    unfolding search_faiss_eq assms(1) by (simp add: split_def)
  have "map (\<lambda>r. (vr_score r, vr_metadata r)) (search_faiss env st q top_k flt) =
        map (\<lambda>(dist, idx). (dist, fe_metadata (faiss_entries st ! idx))) (map snd ?F)"
    unfolding eq by (simp add: split_def)
  also have "map snd ?F = filter ?P ?hits" by (rule filter_enumerate_snd)
  finally have 1: "map (\<lambda>r. (vr_score r, vr_metadata r)) (search_faiss env st q top_k flt) =
        map (\<lambda>(dist, idx). (dist, fe_metadata (faiss_entries st ! idx))) (filter ?P ?hits)" .
  have 2: "\<forall>r\<in>set (search_faiss env st q top_k flt).
            \<forall>(key, v)\<in>set items. meta_get (vr_metadata r) key = v"
    unfolding eq using assms(2)
    by (auto simp: filter_match_def list_all_iff)
  have "length (search_faiss env st q top_k flt) \<le> length (enumerate 0 ?hits)"
    unfolding eq by (simp del: length_enumerate)
  also have "\<dots> \<le> k" by (simp add: faiss_index_search_def)
  finally have 3: "length (search_faiss env st q top_k flt) \<le> k" .
  from 1 2 3 show ?thesis by blast
qed

theorem search_faiss_filters_nearest_witness:
  "(2::nat) = min (nat (max (1 * 2) 1)) (length (faiss_entries store4)) \<and>
   map (\<lambda>r. (vr_score r, vr_metadata r))
       (search_faiss env0 store4 0 1 (Some [(''type'', PStr ''A''), (''chunk_id'', PStr ''c2'')])) =
     [(8 / 10, [(''type'', PStr ''A''), (''chunk_id'', PStr ''c2'')])] \<and>
   length (search_faiss env0 store4 0 1 (Some [(''type'', PStr ''A''), (''chunk_id'', PStr ''c2'')])) \<le> 2"
proof -
  have h: "(2::nat) = min (nat (max (1 * 2) 1)) (length (faiss_entries store4))"
    by (simp add: store4_def)
  have run: "map (\<lambda>r. (vr_score r, vr_metadata r))
       (search_faiss env0 store4 0 1 (Some [(''type'', PStr ''A''), (''chunk_id'', PStr ''c2'')])) =
     [(8 / 10, [(''type'', PStr ''A''), (''chunk_id'', PStr ''c2'')])]"
    by (simp add: search_faiss_def faiss_index_search_def env0_def store4_def sort_desc_def
        filter_match_def meta_get_def Let_def)
  from search_faiss_filters_nearest [OF h refl, of env0 0 "[(''type'', PStr ''A''), (''chunk_id'', PStr ''c2'')]"]
  have "length (search_faiss env0 store4 0 1 (Some [(''type'', PStr ''A''), (''chunk_id'', PStr ''c2'')])) \<le> 2"
    by blast
  with h run show ?thesis by blast
qed

text \<open>
  Claim C4 as stated fails: the filter reduces the already truncated set of hits. With
  \<open>top_k = 1\<close> the index returns the two nearest entries, neither matches the filter,
  and the search returns nothing, while filtering before truncation returns the third
  entry.
\<close>

theorem search_faiss_filter_counterexample:
  "search_faiss env0 store4 0 1 (Some [(''type'', PStr ''B'')]) = [] \<and>
   map snd (faiss_index_search env0 store4 0 2) = [0, 1] \<and>
   map snd (filter_then_truncate env0 store4 0 1 (Some [(''type'', PStr ''B'')])) = [2]"
  by (simp add: search_faiss_def filter_then_truncate_def faiss_index_search_def env0_def
      store4_def sort_desc_def filter_match_def meta_get_def Let_def)

lemma py_slice_to_subset: "set (py_slice_to k xs) \<subseteq> set xs"
  by (auto simp: py_slice_to_def dest: in_set_takeD)

lemma py_slice_to_nonneg: "0 \<le> k \<Longrightarrow> py_slice_to k xs = take (nat k) xs"
  by (simp add: py_slice_to_def)

lemma apply_rerank_scores_ids:
  "map vr_chunk_id (fst (apply_rerank_scores rs ss)) = map vr_chunk_id rs"
  by (induction rs ss rule: apply_rerank_scores.induct) (simp_all add: split_def Let_def)

lemma rerank_results_ids:
  "vr_chunk_id ` set (rerank_results st q rs) = vr_chunk_id ` set rs"
proof (cases "reranker st")
  case None
  then show ?thesis by (simp add: rerank_results_def)
next
  case (Some p)
  show ?thesis
  proof (cases "rs = [] \<or> p (map (\<lambda>r. (q, vr_content r)) rs) = None")
    case True
    then show ?thesis using Some by (auto simp: rerank_results_def)
  next
    case False
    then obtain ss where ss: "p (map (\<lambda>r. (q, vr_content r)) rs) = Some ss" and ne: "rs \<noteq> []"
      by auto
    obtain scored ok where ap: "apply_rerank_scores rs ss = (scored, ok)"
      by (cases "apply_rerank_scores rs ss")
    have ids: "vr_chunk_id ` set scored = vr_chunk_id ` set rs"
    proof -
      have "map vr_chunk_id scored = map vr_chunk_id rs"
        using apply_rerank_scores_ids [of rs ss] ap by simp
      then have "set (map vr_chunk_id scored) = set (map vr_chunk_id rs)" by simp
      then show ?thesis by simp
    qed
    have "set (map vr_chunk_id (map (\<lambda>(i, r). r\<lparr>vr_rank := Some (i + 1)\<rparr>)
                   (enumerate 0 (sort_desc vr_score scored)))) =
          set (map vr_chunk_id (sort_desc vr_score scored))"
    proof -
      have "map vr_chunk_id (map (\<lambda>(i, r). r\<lparr>vr_rank := Some (i + 1)\<rparr>)
                   (enumerate 0 (sort_desc vr_score scored))) =
            map (\<lambda>(i, r). vr_chunk_id r) (enumerate 0 (sort_desc vr_score scored))"
        by (simp add: split_def)
      then show ?thesis by (simp only: map_enumerate_snd)
    qed
    then have sorted_ids: "vr_chunk_id ` set (map (\<lambda>(i, r). r\<lparr>vr_rank := Some (i + 1)\<rparr>)
                   (enumerate 0 (sort_desc vr_score scored))) = vr_chunk_id ` set scored"
      by (simp add: image_image)
    show ?thesis
      using Some ss ne ap ids sorted_ids
      by (cases ok) (simp_all add: rerank_results_def)
  qed
qed

lemma vs_rrf_total:
  assumes "0 \<le> k"
  shows "\<exists>out. vs_reciprocal_rank_fusion vs_lists k = Inr out"
proof -
  have "\<forall>p\<in>set (concat (map (enumerate 0) vs_lists)). k + int (fst p) + 1 \<noteq> 0"
    using assms by auto
  from vs_rrf_scan_total [OF this]
  have sc: "vs_rrf_scan k (concat (map (enumerate 0) vs_lists)) ([], []) =
        Inr (scan_items (vs_items k (concat (map (enumerate 0) vs_lists))) ([], []))" .
  let ?st = "scan_items (vs_items k (concat (map (enumerate 0) vs_lists))) ([], [])"
  have "dom (map_of (fst ?st)) = dom (map_of (snd ?st))"
    using scan_items_results [of "([], [])" "vs_items k (concat (map (enumerate 0) vs_lists))"] by simp
  from vs_fused_list_eq [OF this] sc show ?thesis
    by (simp add: vs_reciprocal_rank_fusion_def)
qed

text \<open>
  Claim C1, as amended. \<open>VectorStore.search\<close> drops every candidate whose score is below
  the similarity threshold (after its reranking) and only then truncates: for a
  non-negative \<open>top_k\<close> it returns the first \<open>top_k\<close> of the survivors, so no result below
  the threshold is returned and no survivor is lost to an earlier cut. \<open>hybrid_search\<close>
  applies the threshold inside its vector branch only: it returns a list whose chunks
  come from the thresholded vector results or from the keyword results, truncated to
  \<open>top_k\<close>, with no threshold on the fused list.
\<close>

theorem search_filters_then_truncates:
  assumes "k = top_k_or top_k (top_k_final (config env))" and "0 \<le> k"
  shows "(\<forall>r\<in>set (search env st query top_k flt). similarity_threshold (config env) \<le> vr_score r) \<and>
         search env st query top_k flt =
           take (nat k) (filter (\<lambda>r. similarity_threshold (config env) \<le> vr_score r)
                           (search_candidates env st query k flt)) \<and>
         length (search env st query top_k flt) =
           min (nat k) (length (filter (\<lambda>r. similarity_threshold (config env) \<le> vr_score r)
                                  (search_candidates env st query k flt))) \<and>
         (\<exists>out. hybrid_search env st query top_k = Inr out \<and>
            vr_chunk_id ` set out \<subseteq>
              vr_chunk_id ` set (search env st query (Some (top_k_vector (config env))) None) \<union>
              vr_chunk_id ` set (keyword_search env st query (top_k_keyword (config env))))"
proof -
  let ?thr = "similarity_threshold (config env)"
  let ?surv = "filter (\<lambda>r. ?thr \<le> vr_score r) (search_candidates env st query k flt)"
  have s: "search env st query top_k flt = take (nat k) ?surv"
    using assms by (simp add: search_def Let_def py_slice_to_nonneg)
  have 1: "\<forall>r\<in>set (search env st query top_k flt). ?thr \<le> vr_score r"
    unfolding s by (auto dest: in_set_takeD)
  have 3: "length (search env st query top_k flt) = min (nat k) (length ?surv)"
    unfolding s by simp
  let ?v = "search env st query (Some (top_k_vector (config env))) None"
  let ?kw = "keyword_search env st query (top_k_keyword (config env))"
  from vs_rrf_total [of 60 "[?v, ?kw]"] obtain fused where
    f: "vs_reciprocal_rank_fusion [?v, ?kw] 60 = Inr fused" by auto
  from vs_rrf_output(2) [OF f]
  have fids: "vr_chunk_id ` set fused = vr_chunk_id ` set ?v \<union> vr_chunk_id ` set ?kw"
    by (simp add: image_Un)
  let ?final = "if reranker st \<noteq> None then rerank_results st query fused else fused"
  have "vr_chunk_id ` set ?final = vr_chunk_id ` set fused"
    by (simp add: rerank_results_ids)
  moreover have "hybrid_search env st query top_k = Inr (py_slice_to k ?final)"
    using f assms(1) by (simp add: hybrid_search_def Let_def)
  moreover have "vr_chunk_id ` set (py_slice_to k ?final) \<subseteq> vr_chunk_id ` set ?final"
    using py_slice_to_subset by (rule image_mono)
  ultimately have 4: "\<exists>out. hybrid_search env st query top_k = Inr out \<and>
            vr_chunk_id ` set out \<subseteq> vr_chunk_id ` set ?v \<union> vr_chunk_id ` set ?kw"
    using fids by auto
  from 1 s 3 4 show ?thesis by blast
qed

theorem search_filters_then_truncates_witness:
  "(5::int) = top_k_or (Some 5) (top_k_final (config env0)) \<and> (0::int) \<le> 5 \<and>
   map vr_chunk_id (search env0 store3 ''garaje'' (Some 5) None) = [PStr ''c1'', PStr ''c2''] \<and>
   length (search env0 store3 ''garaje'' (Some 5) None) =
     min (nat 5) (length (filter (\<lambda>r. similarity_threshold (config env0) \<le> vr_score r)
                            (search_candidates env0 store3 ''garaje'' 5 None)))"
proof -
  have h1: "(5::int) = top_k_or (Some 5) (top_k_final (config env0))"
    by (simp add: top_k_or_def)
  have h2: "(0::int) \<le> 5" by simp
  have run: "map vr_chunk_id (search env0 store3 ''garaje'' (Some 5) None) = [PStr ''c1'', PStr ''c2'']"
    by (simp add: search_def search_candidates_def search_faiss_def faiss_index_search_def
        env0_def store3_def default_search_config_def top_k_or_def filter_match_def meta_get_def
        sort_desc_def py_slice_to_def Let_def)
  from search_filters_then_truncates [OF h1 h2, of store3 "''garaje''" None]
  have "length (search env0 store3 ''garaje'' (Some 5) None) =
     min (nat 5) (length (filter (\<lambda>r. similarity_threshold (config env0) \<le> vr_score r)
                            (search_candidates env0 store3 ''garaje'' 5 None)))"
    by blast
  with h1 h2 run show ?thesis by blast
qed

text \<open>
  Claim C1 as stated fails on the hybrid path: with the default threshold 0.15, chunk
  \<open>c3\<close> (similarity 0.1) is dropped by the vector search but found by the keyword
  search, and the hybrid result holds it, every fused score being far below the
  threshold.
\<close>

theorem hybrid_search_threshold_counterexample:
  "similarity_threshold (config env0) = 15 / 100 \<and>
   map vr_chunk_id (search env0 store3 ''garaje'' (Some 5) None) = [PStr ''c1'', PStr ''c2''] \<and>
   (\<exists>out. hybrid_search env0 store3 ''garaje'' (Some 5) = Inr out \<and>
      map vr_chunk_id out = [PStr ''c1'', PStr ''c3'', PStr ''c2''] \<and>
      map vr_score out = [1 / 61, 1 / 61, 1 / 62])"
  by (simp add: hybrid_search_def search_def search_candidates_def search_faiss_def
      faiss_index_search_def keyword_search_def keyword_rows_def env0_def store3_def
      default_search_config_def top_k_or_def filter_match_def meta_get_def sort_desc_def
      py_slice_to_def py_split_def py_lower_def lower_char_def is_space_def
      vs_reciprocal_rank_fusion_def vs_fused_list_def accumulate_def dict_get_def Let_def)

end
